theory Spec2Isabelle
  imports Main "HOL-Library.Word"
begin

section \<open>The SQL tag: fragments and their expansion (sql-tag.ts)\<close>

text \<open>
  A \<^verbatim>\<open>Primitive\<close> is what a caller may put into a template slot:
  \<^verbatim>\<open>string | number | boolean | null | undefined | ArrayBuffer | Uint8Array\<close>.
  Numbers are modelled as integers (the code never inspects them); a \<^verbatim>\<open>Uint8Array\<close> is a
  view: its backing buffer, its byte offset and its length.
\<close>

type_synonym byte = "8 word"

datatype Primitive =
    PString string
  | PNumber int
  | PBoolean bool
  | PNull
  | PUndefined
  | PArrayBuffer "byte list"
  | PUint8Array "byte list" nat nat

text \<open>
  A fragment object carries \<^verbatim>\<open>templateStrings\<close> and \<^verbatim>\<open>templateValues\<close>; a template value is
  either a primitive or another fragment (the test of \<^verbatim>\<open>expand\<close>: an object that has both
  fields).
\<close>

datatype SqlQueryFragment =
    Fragment (templateStrings: "string list") (templateValues: "slot list")
and slot =
    Scalar Primitive
  | Nested SqlQueryFragment

text \<open>
  \<^verbatim>\<open>PreparedStatement = { query: string; values?: Primitive[] }\<close>. The optional field
  \<^verbatim>\<open>values\<close> is \<open>values_opt\<close> here (\<open>None\<close> is JavaScript's \<^verbatim>\<open>undefined\<close>).
\<close>

record PreparedStatement =
  query :: string
  values_opt :: "Primitive list option"

text \<open>
  \<^verbatim>\<open>expandTemplate\<close> keeps two mutable locals, \<^verbatim>\<open>query\<close> and \<^verbatim>\<open>values\<close>, which the inner
  function \<^verbatim>\<open>expand\<close> appends to. They are threaded through as an accumulator.
\<close>

record expand_acc =
  acc_query :: string
  acc_values :: "Primitive list"

definition emit_text :: "string \<Rightarrow> expand_acc \<Rightarrow> expand_acc" where
  "emit_text s acc = acc\<lparr>acc_query := acc_query acc @ s\<rparr>"

definition emit_param :: "Primitive \<Rightarrow> expand_acc \<Rightarrow> expand_acc" where
  "emit_param v acc = acc\<lparr>acc_query := acc_query acc @ ''?'', acc_values := acc_values acc @ [v]\<rparr>"

text \<open>
  The loop of \<^verbatim>\<open>expand\<close> runs over the indices of \<^verbatim>\<open>templateStrings\<close>; for \<open>i > 0\<close> it
  first handles \<^verbatim>\<open>templateValues[i - 1]\<close> and then appends \<^verbatim>\<open>templateStrings[i]\<close>.
  \<open>expand\<close> takes the first string; \<open>expand_from\<close> walks the remaining strings and the values in
  lockstep. A value read past the end of \<^verbatim>\<open>templateValues\<close> is \<^verbatim>\<open>undefined\<close>, which is not a
  fragment: the loop emits a placeholder and pushes \<^verbatim>\<open>undefined\<close>. Values beyond the last string
  are never read.
\<close>

fun expand :: "SqlQueryFragment \<Rightarrow> expand_acc \<Rightarrow> expand_acc"
and expand_from :: "string list \<Rightarrow> slot list \<Rightarrow> expand_acc \<Rightarrow> expand_acc" where
  "expand (Fragment [] vs) acc = acc"
| "expand (Fragment (s # ss) vs) acc = expand_from ss vs (emit_text s acc)"
| "expand_from [] vs acc = acc"
| "expand_from (s # ss) [] acc = expand_from ss [] (emit_text s (emit_param PUndefined acc))"
| "expand_from (s # ss) (Scalar v # vs) acc = expand_from ss vs (emit_text s (emit_param v acc))"
| "expand_from (s # ss) (Nested f # vs) acc = expand_from ss vs (emit_text s (expand f acc))"

definition expandTemplate :: "string list \<Rightarrow> slot list \<Rightarrow> PreparedStatement" where
  "expandTemplate rootTemplateStrings rootTemplateValues =
     (let acc = expand (Fragment rootTemplateStrings rootTemplateValues)
                  \<lparr>acc_query = [], acc_values = []\<rparr>
      in \<lparr>query = acc_query acc,
          values_opt = (if length (acc_values acc) > 0 then Some (acc_values acc) else None)\<rparr>)"

definition sql_build :: "SqlQueryFragment \<Rightarrow> PreparedStatement" where
  "sql_build f = expandTemplate (templateStrings f) (templateValues f)"

text \<open>The callers of a statement read its parameters as \<^verbatim>\<open>statement.values || []\<close>.\<close>

definition statement_values :: "PreparedStatement \<Rightarrow> Primitive list" where
  "statement_values st = (case values_opt st of None \<Rightarrow> [] | Some vs \<Rightarrow> vs)"

text \<open>
  \<^verbatim>\<open>sql.join(values)\<close> and, in the earlier revision of the file, \<^verbatim>\<open>sql.list(values)\<close>. Each
  returns an object with its own \<^verbatim>\<open>build\<close> method: for the empty array a constant statement,
  otherwise \<^verbatim>\<open>expandTemplate\<close> on the strings it has put together.
\<close>

definition join_templateStrings :: "Primitive list \<Rightarrow> string list" where
  "join_templateStrings vs =
     (if length vs = 0 then [''NULL'']
      else [[]] @ replicate (length vs - 1) '', '' @ [[]])"

definition sql_join :: "Primitive list \<Rightarrow> SqlQueryFragment" where
  "sql_join vs = Fragment (join_templateStrings vs) (map Scalar vs)"

definition join_build :: "Primitive list \<Rightarrow> PreparedStatement" where
  "join_build vs =
     (if length vs = 0 then \<lparr>query = ''NULL'', values_opt = None\<rparr>
      else expandTemplate (join_templateStrings vs) (map Scalar vs))"

definition list_templateStrings :: "Primitive list \<Rightarrow> string list" where
  "list_templateStrings vs =
     (if length vs = 0 then [''(NULL)'']
      else [''(''] @ replicate (length vs - 1) '', '' @ ['')''])"

definition sql_list :: "Primitive list \<Rightarrow> SqlQueryFragment" where
  "sql_list vs = Fragment (list_templateStrings vs) (map Scalar vs)"

definition list_build :: "Primitive list \<Rightarrow> PreparedStatement" where
  "list_build vs =
     (if length vs = 0 then \<lparr>query = ''(NULL)'', values_opt = Some []\<rparr>
      else expandTemplate (list_templateStrings vs) (map Scalar vs))"

section \<open>The database wrapper: query shapes (db-wrapper.ts)\<close>

text \<open>
  What a \<^verbatim>\<open>throw\<close> carries: an \<^verbatim>\<open>Error\<close> or a \<^verbatim>\<open>TypeError\<close> with its message.
  \<^verbatim>\<open>SqlStorageValue\<close> is what the engine returns: \<^verbatim>\<open>string | number | null | ArrayBuffer\<close>;
  a row is a record of named values.
\<close>

datatype js_error = Error string | TypeError string

datatype SqlStorageValue =
    SString string
  | SNumber int
  | SNull
  | SArrayBuffer "byte list"

type_synonym SqlRow = "(string \<times> SqlStorageValue) list"

text \<open>The decimal digits that a template literal prints for a number.\<close>

definition digit_char :: "nat \<Rightarrow> char" where
  "digit_char d = ''0123456789'' ! d"

function decimal_digits :: "nat \<Rightarrow> string" where
  "decimal_digits n =
     (if n div 10 = 0 then [digit_char n]
      else decimal_digits (n div 10) @ [digit_char (n mod 10)])"
  by pat_completeness auto
termination
  by (relation "measure id") auto

declare decimal_digits.simps [simp del]

definition number_to_string :: "int \<Rightarrow> string" where
  "number_to_string i =
     (if 0 \<le> i then decimal_digits (nat i) else CHR ''-'' # decimal_digits (nat (- i)))"

text \<open>
  The host engine is a parameter: \<^verbatim>\<open>storage.sql.exec(query, ...values).toArray()\<close> returns rows
  or throws, and may change the storage \<open>'s\<close>. The wrapper is the one \<^verbatim>\<open>createWrapper\<close> returns
  when no \<^verbatim>\<open>beforeQuery\<close>/\<^verbatim>\<open>afterQuery\<close> callbacks are configured. A statement is a prepared
  statement, a fragment, or a fragment with a row mapper (\<^verbatim>\<open>fragment.map(mapper)\<close>); a mapper is
  a JavaScript function, so it may throw.
\<close>

type_synonym 's sql_exec = "string \<Rightarrow> Primitive list \<Rightarrow> 's \<Rightarrow> (js_error + SqlRow list) \<times> 's"

datatype FragmentOrStatement =
    Prepared PreparedStatement
  | Plain SqlQueryFragment
  | Mapped SqlQueryFragment "SqlRow \<Rightarrow> js_error + SqlRow"

fun mapper_of :: "FragmentOrStatement \<Rightarrow> (SqlRow \<Rightarrow> js_error + SqlRow) option" where
  "mapper_of (Mapped f m) = Some m"
| "mapper_of _ = None"

fun build_statement :: "FragmentOrStatement \<Rightarrow> PreparedStatement" where
  "build_statement (Prepared p) = p"
| "build_statement (Plain f) = sql_build f"
| "build_statement (Mapped f m) = sql_build f"

text \<open>\<^verbatim>\<open>rows.map(mapper)\<close>: left to right, the first exception ends it.\<close>

fun map_rows :: "('a \<Rightarrow> js_error + 'b) \<Rightarrow> 'a list \<Rightarrow> js_error + 'b list" where
  "map_rows m [] = Inr []"
| "map_rows m (r # rs) =
     (case m r of
        Inl e \<Rightarrow> Inl e
      | Inr r' \<Rightarrow> (case map_rows m rs of Inl e \<Rightarrow> Inl e | Inr rs' \<Rightarrow> Inr (r' # rs')))"

definition queryCommon :: "'s sql_exec \<Rightarrow> FragmentOrStatement \<Rightarrow> 's \<Rightarrow> (js_error + SqlRow list) \<times> 's" where
  "queryCommon exec statement s =
     (let mapper = mapper_of statement;
          st = build_statement statement
      in case exec (query st) (statement_values st) s of
           (Inl e, s') \<Rightarrow> (Inl e, s')
         | (Inr rows, s') \<Rightarrow>
             (case mapper of
                None \<Rightarrow> (Inr rows, s')
              | Some m \<Rightarrow> (map_rows m rows, s')))"

definition queryNone :: "'s sql_exec \<Rightarrow> FragmentOrStatement \<Rightarrow> 's \<Rightarrow> (js_error + unit) \<times> 's" where
  "queryNone exec statement s =
     (case queryCommon exec statement s of
        (Inl e, s') \<Rightarrow> (Inl e, s')
      | (Inr rows, s') \<Rightarrow>
          if length rows > 0
          then (Inl (Error (''Expected no rows, got '' @ decimal_digits (length rows))), s')
          else (Inr (), s'))"

definition queryNoneOrOne :: "'s sql_exec \<Rightarrow> FragmentOrStatement \<Rightarrow> 's \<Rightarrow> (js_error + SqlRow option) \<times> 's" where
  "queryNoneOrOne exec statement s =
     (case queryCommon exec statement s of
        (Inl e, s') \<Rightarrow> (Inl e, s')
      | (Inr rows, s') \<Rightarrow>
          if length rows > 1
          then (Inl (Error (''Expected at most one row, got '' @ decimal_digits (length rows))), s')
          else (Inr (if length rows = 1 then Some (rows ! 0) else None), s'))"

definition queryOne :: "'s sql_exec \<Rightarrow> FragmentOrStatement \<Rightarrow> 's \<Rightarrow> (js_error + SqlRow) \<times> 's" where
  "queryOne exec statement s =
     (case queryCommon exec statement s of
        (Inl e, s') \<Rightarrow> (Inl e, s')
      | (Inr rows, s') \<Rightarrow>
          if length rows \<noteq> 1
          then (Inl (Error (''Expected one row, got '' @ decimal_digits (length rows))), s')
          else (Inr (rows ! 0), s'))"

definition queryMany :: "'s sql_exec \<Rightarrow> FragmentOrStatement \<Rightarrow> 's \<Rightarrow> (js_error + SqlRow list) \<times> 's" where
  "queryMany exec statement s = queryCommon exec statement s"

section \<open>The database wrapper: schema version and migrations (db-wrapper.ts)\<close>

text \<open>What \<^verbatim>\<open>typeof\<close> and a template literal make of a stored value.\<close>

fun js_typeof :: "SqlStorageValue \<Rightarrow> string" where
  "js_typeof (SString s) = ''string''"
| "js_typeof (SNumber n) = ''number''"
| "js_typeof SNull = ''object''"
| "js_typeof (SArrayBuffer b) = ''object''"

fun js_template_string :: "SqlStorageValue \<Rightarrow> string" where
  "js_template_string (SString s) = s"
| "js_template_string (SNumber n) = number_to_string n"
| "js_template_string SNull = ''null''"
| "js_template_string (SArrayBuffer b) = ''[object ArrayBuffer]''"

text \<open>
  \<^verbatim>\<open>Array.prototype.slice(start, end)\<close>: a negative index counts from the end, and both are
  clamped to the array.
\<close>

definition js_slice :: "int \<Rightarrow> int \<Rightarrow> 'a list \<Rightarrow> 'a list" where
  "js_slice start end' xs =
     (let len = int (length xs);
          k = (if start < 0 then max (len + start) 0 else min start len);
          final = (if end' < 0 then max (len + end') 0 else min end' len)
      in take (nat (final - k)) (drop (nat k) xs))"

text \<open>
  The storage as the three statements of this file see it: the table \<^verbatim>\<open>metadata\<close> (absent, or a
  map from its primary key to the value), and everything else (\<open>user\<close>). The engine binds a
  parameter as the doc comment of \<^verbatim>\<open>Primitive\<close> says: booleans become \<^verbatim>\<open>"true"\<close>/\<^verbatim>\<open>"false"\<close>,
  \<^verbatim>\<open>undefined\<close> becomes \<^verbatim>\<open>null\<close>, and a byte view is stored as its addressed bytes.
\<close>

record 'u storage =
  metadata :: "(string \<rightharpoonup> SqlStorageValue) option"
  user :: 'u

fun to_storage_value :: "Primitive \<Rightarrow> SqlStorageValue" where
  "to_storage_value (PString s) = SString s"
| "to_storage_value (PNumber n) = SNumber n"
| "to_storage_value (PBoolean b) = SString (if b then ''true'' else ''false'')"
| "to_storage_value PNull = SNull"
| "to_storage_value PUndefined = SNull"
| "to_storage_value (PArrayBuffer b) = SArrayBuffer b"
| "to_storage_value (PUint8Array b off len) = SArrayBuffer (take len (drop off b))"

text \<open>
  \<^verbatim>\<open>CREATE TABLE IF NOT EXISTS metadata (key TEXT PRIMARY KEY, value ANY) STRICT\<close>,
  \<^verbatim>\<open>SELECT value FROM metadata WHERE key = "schema_version"\<close>, and
  \<^verbatim>\<open>INSERT INTO metadata (key, value) VALUES ("schema_version", ?) ON CONFLICT(key) DO UPDATE SET value = ?\<close>:
  an insert binds the first parameter, the update on conflict the second. The engine is the
  host's, not the repository's: the three definitions give these statements their SQL meaning on
  the table, which has \<^verbatim>\<open>key\<close> as its primary key and so at most one row per key.
\<close>

definition exec_create_metadata :: "'u storage \<Rightarrow> 'u storage" where
  "exec_create_metadata s =
     (case metadata s of None \<Rightarrow> s\<lparr>metadata := Some Map.empty\<rparr> | Some m \<Rightarrow> s)"

definition exec_select_schema_version :: "'u storage \<Rightarrow> js_error + SqlStorageValue list" where
  "exec_select_schema_version s =
     (case metadata s of
        None \<Rightarrow> Inl (Error ''no such table: metadata'')
      | Some m \<Rightarrow> Inr (case m ''schema_version'' of None \<Rightarrow> [] | Some v \<Rightarrow> [v]))"

definition exec_upsert_schema_version :: "Primitive list \<Rightarrow> 'u storage \<Rightarrow> js_error option \<times> 'u storage" where
  "exec_upsert_schema_version params s =
     (case metadata s of
        None \<Rightarrow> (Some (Error ''no such table: metadata''), s)
      | Some m \<Rightarrow>
          (case m ''schema_version'' of
             None \<Rightarrow>
               (None, s\<lparr>metadata := Some (m(''schema_version'' \<mapsto> to_storage_value (params ! 0)))\<rparr>)
           | Some old \<Rightarrow>
               (None, s\<lparr>metadata := Some (m(''schema_version'' \<mapsto> to_storage_value (params ! 1)))\<rparr>)))"

text \<open>
  \<^verbatim>\<open>getSchemaVersion\<close>. The numbers of the model are integers, as are the versions that a run
  writes (a loop index plus one); a stored number with a fractional part, which the \<^verbatim>\<open>typeof\<close>
  test lets through, is outside the model.
\<close>

definition getSchemaVersion :: "'u storage \<Rightarrow> (js_error + int) \<times> 'u storage" where
  "getSchemaVersion sql =
     (let s1 = exec_create_metadata sql in
      case exec_select_schema_version s1 of
        Inl e \<Rightarrow> (Inl e, s1)
      | Inr result \<Rightarrow>
          (case result of
             [] \<Rightarrow> (Inr 0, s1)
           | v # rest \<Rightarrow>
               (case v of
                  SNumber n \<Rightarrow> (Inr n, s1)
                | _ \<Rightarrow> (Inl (Error (''Invalid schema_version: '' @ js_template_string v
                                      @ '' ('' @ js_typeof v @ '')'')), s1))))"

text \<open>
  \<^verbatim>\<open>db.run\<close> hands the engine the text of the statement and its parameters. The one statement a
  migration run passes to \<^verbatim>\<open>db.run\<close> is the upsert of the version, in the text the tag builds
  from the template of \<^verbatim>\<open>migrateDatabase\<close> (the line breaks and the indentation of the source
  included); the model of the engine knows this text and refuses any other.
\<close>

definition upsert_sql :: string where
  "upsert_sql =
     ''INSERT INTO metadata (key, value)'' @ [CHR 0x0A]
     @ ''               VALUES ('' @ [CHR 0x22] @ ''schema_version'' @ [CHR 0x22] @ '', ?)'' @ [CHR 0x0A]
     @ ''               ON CONFLICT(key) DO UPDATE SET value = ?''"

definition storage_sql_exec :: "string \<Rightarrow> Primitive list \<Rightarrow> 'u storage \<Rightarrow> js_error option \<times> 'u storage" where
  "storage_sql_exec q params s =
     (if q = upsert_sql then exec_upsert_schema_version params s
      else (Some (Error ''statement outside the model of the engine''), s))"

text \<open>
  A hook (\<^verbatim>\<open>beforeMigrate\<close>, \<^verbatim>\<open>migrate\<close>, \<^verbatim>\<open>beforeMigration\<close>) or a query callback
  (\<^verbatim>\<open>beforeQuery\<close>, \<^verbatim>\<open>afterQuery\<close>) is a function of the caller's: it may change the storage, and
  it may throw after having changed it. \<^verbatim>\<open>Options\<close> extends \<^verbatim>\<open>QueryCallbacks\<close>, and the wrapper
  that \<^verbatim>\<open>wrapDatabase\<close> passes to \<^verbatim>\<open>migrateDatabase\<close> is created with the options as its
  callbacks. A query callback is given the text of the query; \<^verbatim>\<open>afterQuery\<close> is also given the
  result \<^verbatim>\<open>{ rowsRead, rowsWritten }\<close>, the engine's accounting of the statement, which the
  model of the engine does not compute: a query callback is a function of the text of the query
  and of the storage it finds.
\<close>

type_synonym 'u hook = "'u storage \<Rightarrow> js_error option \<times> 'u storage"

record 'u MigrationVersionDefinition =
  name :: string
  beforeMigrate :: "'u hook option"
  migrate :: "'u hook"

record 'u Options =
  beforeQuery :: "(string \<Rightarrow> 'u hook) option"
  afterQuery :: "(string \<Rightarrow> 'u hook) option"
  beforeMigration :: "('u MigrationVersionDefinition list \<Rightarrow> 'u hook) option"

text \<open>
  Besides the storage, a run is observed through the calls it makes, in order: the observer hook
  (with the names of the steps it is given), the line written by \<^verbatim>\<open>console.log\<close>, each step hook
  (with the loop index), the query callbacks (with the query), and the execution of a statement
  by the engine (with its text and parameters).
\<close>

datatype event =
    BeforeMigrationCalled "string list"
  | ConsoleLog string
  | BeforeMigrateCalled int
  | MigrateCalled int
  | BeforeQueryCalled string
  | SqlExecCalled string "Primitive list"
  | AfterQueryCalled string

record 'u run_state =
  store :: "'u storage"
  events :: "event list"

definition call_hook :: "event \<Rightarrow> 'u hook \<Rightarrow> 'u run_state \<Rightarrow> js_error option \<times> 'u run_state" where
  "call_hook ev h st =
     (case h (store st) of (r, s') \<Rightarrow> (r, \<lparr>store = s', events = events st @ [ev]\<rparr>))"

text \<open>
  \<^verbatim>\<open>run(statement)\<close> of the wrapper: build the statement, call \<^verbatim>\<open>beforeQuery\<close> if configured,
  execute, call \<^verbatim>\<open>afterQuery\<close> if configured.
\<close>

definition db_run :: "'u Options \<Rightarrow> FragmentOrStatement \<Rightarrow> 'u run_state \<Rightarrow> js_error option \<times> 'u run_state" where
  "db_run options statement st =
     (let built = build_statement statement
      in case (case beforeQuery options of
                 None \<Rightarrow> (None, st)
               | Some cb \<Rightarrow> call_hook (BeforeQueryCalled (query built)) (cb (query built)) st) of
           (Some e, st1) \<Rightarrow> (Some e, st1)
         | (None, st1) \<Rightarrow>
             (case call_hook (SqlExecCalled (query built) (statement_values built))
                     (storage_sql_exec (query built) (statement_values built)) st1 of
                (Some e, st2) \<Rightarrow> (Some e, st2)
              | (None, st2) \<Rightarrow>
                  (case afterQuery options of
                     None \<Rightarrow> (None, st2)
                   | Some cb \<Rightarrow> call_hook (AfterQueryCalled (query built)) (cb (query built)) st2)))"

text \<open>The fragment of \<^verbatim>\<open>migrateDatabase\<close>: three literal strings around two slots.\<close>

definition schema_version_fragment :: "int \<Rightarrow> SqlQueryFragment" where
  "schema_version_fragment targetVersion =
     Fragment
       [''INSERT INTO metadata (key, value)'' @ [CHR 0x0A] @ ''               VALUES (''
          @ [CHR 0x22] @ ''schema_version'' @ [CHR 0x22] @ '', '',
        '')'' @ [CHR 0x0A] @ ''               ON CONFLICT(key) DO UPDATE SET value = '',
        []]
       [Scalar (PNumber targetVersion), Scalar (PNumber targetVersion)]"

definition migration_log_line :: "int \<Rightarrow> string \<Rightarrow> string" where
  "migration_log_line targetVersion step_name =
     ''Migrating database to version '' @ number_to_string targetVersion @ '': '' @ step_name @ ''...''"

text \<open>The body of the loop of \<^verbatim>\<open>migrateDatabase\<close>, for one \<^verbatim>\<open>version\<close>.\<close>

definition migrateStep ::
  "'u Options \<Rightarrow> 'u MigrationVersionDefinition \<Rightarrow> int \<Rightarrow> 'u run_state
     \<Rightarrow> js_error option \<times> 'u run_state" where
  "migrateStep options definition version st =
     (let targetVersion = version + 1;
          st0 = st\<lparr>events := events st @
                  [ConsoleLog (migration_log_line targetVersion (name definition))]\<rparr>
      in case (case beforeMigrate definition of
                 None \<Rightarrow> (None, st0)
               | Some h \<Rightarrow> call_hook (BeforeMigrateCalled version) h st0) of
           (Some e, st1) \<Rightarrow> (Some e, st1)
         | (None, st1) \<Rightarrow>
             (case call_hook (MigrateCalled version) (migrate definition) st1 of
                (Some e, st2) \<Rightarrow> (Some e, st2)
              | (None, st2) \<Rightarrow>
                  db_run options (Plain (schema_version_fragment targetVersion)) st2))"

text \<open>
  \<^verbatim>\<open>for (let version = initialVersion; version < versions.length; version++)\<close>. With a negative
  index \<^verbatim>\<open>versions[version]\<close> is \<^verbatim>\<open>undefined\<close>, and reading its \<^verbatim>\<open>name\<close> throws.
\<close>

function migrateLoop ::
  "'u Options \<Rightarrow> 'u MigrationVersionDefinition list \<Rightarrow> int \<Rightarrow> 'u run_state
     \<Rightarrow> js_error option \<times> 'u run_state" where
  "migrateLoop options versions version st =
     (if version < int (length versions) then
        (if version < 0
         then (Some (TypeError ''Cannot read properties of undefined (reading 'name')''), st)
         else (case migrateStep options (versions ! nat version) version st of
                 (Some e, st') \<Rightarrow> (Some e, st')
               | (None, st') \<Rightarrow> migrateLoop options versions (version + 1) st'))
      else (None, st))"
  by pat_completeness auto
termination
  by (relation "measure (\<lambda>(options, versions, version, st). nat (int (length versions) - version))")
    auto

declare migrateLoop.simps [simp del]

text \<open>
  \<^verbatim>\<open>migrateDatabase(db, versions, options)\<close>, with \<^verbatim>\<open>db\<close> the wrapper that \<^verbatim>\<open>wrapDatabase\<close>
  creates from the same options.
\<close>

definition migrateDatabase ::
  "'u MigrationVersionDefinition list \<Rightarrow> 'u Options \<Rightarrow> 'u run_state \<Rightarrow> js_error option \<times> 'u run_state" where
  "migrateDatabase versions options st =
     (case getSchemaVersion (store st) of
        (Inl e, s1) \<Rightarrow> (Some e, st\<lparr>store := s1\<rparr>)
      | (Inr initialVersion, s1) \<Rightarrow>
          (let st1 = st\<lparr>store := s1\<rparr>;
               finalTargetVersion = int (length versions)
           in if initialVersion = finalTargetVersion then (None, st1)
              else
                (let migrationsToApply = js_slice initialVersion finalTargetVersion versions
                 in case (case beforeMigration options of
                            None \<Rightarrow> (None, st1)
                          | Some obs \<Rightarrow>
                              call_hook (BeforeMigrationCalled (map name migrationsToApply))
                                (obs migrationsToApply) st1) of
                      (Some e, st2) \<Rightarrow> (Some e, st2)
                    | (None, st2) \<Rightarrow> migrateLoop options versions initialVersion st2)))"

record 'u MigrationStatus =
  currentVersion :: int
  targetVersion :: int
  migrationsToApply :: "'u MigrationVersionDefinition list"

definition getMigrationStatus ::
  "'u storage \<Rightarrow> 'u MigrationVersionDefinition list \<Rightarrow> (js_error + 'u MigrationStatus) \<times> 'u storage" where
  "getMigrationStatus storage migrations' =
     (case getSchemaVersion storage of
        (Inl e, s1) \<Rightarrow> (Inl e, s1)
      | (Inr v, s1) \<Rightarrow>
          (Inr \<lparr>currentVersion = v,
                targetVersion = int (length migrations'),
                migrationsToApply = js_slice v (int (length migrations')) migrations'\<rparr>, s1))"

section \<open>Notions used to state the properties\<close>

text \<open>
  The text of a fragment as the specification describes it: the literal segments in order, each
  slot replaced by one placeholder, or by the text of the nested fragment.
\<close>

fun interleave :: "string list \<Rightarrow> string list \<Rightarrow> string" where
  "interleave [] ts = []"
| "interleave (s # ss) [] = s"
| "interleave (s # ss) (t # ts) = s @ t @ interleave ss ts"

fun splice_text :: "SqlQueryFragment \<Rightarrow> string"
and slot_text :: "slot \<Rightarrow> string" where
  "splice_text (Fragment ss vs) = interleave ss (map slot_text vs)"
| "slot_text (Scalar v) = ''?''"
| "slot_text (Nested f) = splice_text f"

fun scalar_slots :: "SqlQueryFragment \<Rightarrow> Primitive list"
and slot_scalars :: "slot \<Rightarrow> Primitive list" where
  "scalar_slots (Fragment ss vs) = concat (map slot_scalars vs)"
| "slot_scalars (Scalar v) = [v]"
| "slot_scalars (Nested f) = scalar_slots f"

fun literal_text :: "SqlQueryFragment \<Rightarrow> string"
and slot_literal_text :: "slot \<Rightarrow> string" where
  "literal_text (Fragment ss vs) = concat ss @ concat (map slot_literal_text vs)"
| "slot_literal_text (Scalar v) = []"
| "slot_literal_text (Nested f) = literal_text f"

fun well_formed :: "SqlQueryFragment \<Rightarrow> bool"
and well_formed_slot :: "slot \<Rightarrow> bool" where
  "well_formed (Fragment ss vs) = (length ss = Suc (length vs) \<and> list_all well_formed_slot vs)"
| "well_formed_slot (Scalar v) = True"
| "well_formed_slot (Nested f) = well_formed f"

text \<open>The number of \<^verbatim>\<open>?\<close> characters of a text.\<close>

definition placeholder_count :: "string \<Rightarrow> nat" where
  "placeholder_count q = count_list q (CHR ''?'')"

text \<open>The coercion table of the specification (section 4.2), as a function on primitives.\<close>

fun coerce_spec :: "Primitive \<Rightarrow> Primitive" where
  "coerce_spec (PString s) = PString s"
| "coerce_spec (PNumber n) = PNumber n"
| "coerce_spec (PBoolean b) = PString (if b then ''true'' else ''false'')"
| "coerce_spec PNull = PNull"
| "coerce_spec PUndefined = PNull"
| "coerce_spec (PArrayBuffer b) = PArrayBuffer b"
| "coerce_spec (PUint8Array b off len) = PArrayBuffer (take len (drop off b))"

text \<open>
  The row under the key \<^verbatim>\<open>schema_version\<close>, if any, and what it means for a hook to leave the
  table \<^verbatim>\<open>metadata\<close> alone.
\<close>

definition schema_version_row :: "'u storage \<Rightarrow> SqlStorageValue option" where
  "schema_version_row s = (case metadata s of None \<Rightarrow> None | Some m \<Rightarrow> m ''schema_version'')"

definition preserves_metadata :: "'u hook \<Rightarrow> bool" where
  "preserves_metadata h = (\<forall>s. metadata (snd (h s)) = metadata s)"

definition step_preserves_metadata :: "'u MigrationVersionDefinition \<Rightarrow> bool" where
  "step_preserves_metadata d =
     (preserves_metadata (migrate d) \<and>
      (case beforeMigrate d of None \<Rightarrow> True | Some h \<Rightarrow> preserves_metadata h))"

definition observer_preserves_metadata :: "'u Options \<Rightarrow> bool" where
  "observer_preserves_metadata options =
     (case beforeMigration options of
        None \<Rightarrow> True
      | Some obs \<Rightarrow> (\<forall>pending. preserves_metadata (obs pending)))"

definition after_query_preserves_metadata :: "'u Options \<Rightarrow> bool" where
  "after_query_preserves_metadata options =
     (case afterQuery options of
        None \<Rightarrow> True
      | Some cb \<Rightarrow> (\<forall>q. preserves_metadata (cb q)))"

text \<open>
  A migration run as the specification describes it, on the storage alone. Calls are made one
  after the other, and the first that throws ends the sequence with its error and the storage it
  left (\<open>then_call\<close>); a hook that is not configured does nothing (\<open>optional_hook\<close>).
  \<^item> \<open>write_version n\<close>: the insert-or-update on conflict, which puts \<open>n\<close> under the key
    \<^verbatim>\<open>schema_version\<close> whether or not a row is there, and leaves the other rows alone.
  \<^item> \<open>persist_version\<close>: that write, between the query callbacks.
  \<^item> \<open>step_hooks\<close>: the \<^verbatim>\<open>beforeMigrate\<close> hook of a step if it has one, then its \<^verbatim>\<open>migrate\<close> hook.
  \<^item> \<open>complete_step\<close>: the transition from version \<open>i\<close> to \<open>i + 1\<close>: the hooks of step \<open>i\<close>,
    then the version \<open>i + 1\<close> persisted.
  \<^item> \<open>pending_steps\<close>: the pending steps in ascending order, the first with index \<open>i\<close>.
  \<^item> \<open>pending_run\<close>: nothing when no step is pending; otherwise the observer hook on the pending
    steps, then the steps.
\<close>

definition then_call :: "js_error option \<times> 's \<Rightarrow> ('s \<Rightarrow> js_error option \<times> 's) \<Rightarrow> js_error option \<times> 's" where
  "then_call r h = (case r of (Some e, s) \<Rightarrow> (Some e, s) | (None, s) \<Rightarrow> h s)"

definition optional_hook :: "'u hook option \<Rightarrow> 'u hook" where
  "optional_hook ho s = (case ho of None \<Rightarrow> (None, s) | Some h \<Rightarrow> h s)"

definition write_version :: "int \<Rightarrow> 'u hook" where
  "write_version n s =
     (case metadata s of
        None \<Rightarrow> (Some (Error ''no such table: metadata''), s)
      | Some m \<Rightarrow> (None, s\<lparr>metadata := Some (m(''schema_version'' \<mapsto> SNumber n))\<rparr>))"

definition persist_version :: "'u Options \<Rightarrow> int \<Rightarrow> 'u hook" where
  "persist_version options n s =
     then_call
       (then_call (optional_hook (map_option (\<lambda>cb. cb upsert_sql) (beforeQuery options)) s)
          (write_version n))
       (optional_hook (map_option (\<lambda>cb. cb upsert_sql) (afterQuery options)))"

definition step_hooks :: "'u MigrationVersionDefinition \<Rightarrow> 'u hook" where
  "step_hooks d s = then_call (optional_hook (beforeMigrate d) s) (migrate d)"

definition complete_step :: "'u Options \<Rightarrow> 'u MigrationVersionDefinition \<Rightarrow> int \<Rightarrow> 'u hook" where
  "complete_step options d i s = then_call (step_hooks d s) (persist_version options (i + 1))"

fun pending_steps :: "'u Options \<Rightarrow> 'u MigrationVersionDefinition list \<Rightarrow> int \<Rightarrow> 'u hook" where
  "pending_steps options [] i s = (None, s)"
| "pending_steps options (d # ds) i s =
     then_call (complete_step options d i s) (pending_steps options ds (i + 1))"

definition observer_call :: "'u Options \<Rightarrow> 'u MigrationVersionDefinition list \<Rightarrow> 'u hook" where
  "observer_call options pending = optional_hook (map_option (\<lambda>obs. obs pending) (beforeMigration options))"

definition pending_run :: "'u Options \<Rightarrow> 'u MigrationVersionDefinition list \<Rightarrow> int \<Rightarrow> 'u hook" where
  "pending_run options pending i s =
     (if pending = [] then (None, s)
      else then_call (observer_call options pending s) (pending_steps options pending i))"

text \<open>
  The calls of a run: of the observer hook, of a completed step (its log line, its hooks, and
  \<^verbatim>\<open>db.run\<close> of the upsert with its callbacks), and of a step one of whose hooks throws on the
  storage \<open>s\<close> (the \<^verbatim>\<open>migrate\<close> hook is called only if \<^verbatim>\<open>beforeMigrate\<close> is absent or returns).
\<close>

definition observer_events :: "'u Options \<Rightarrow> 'u MigrationVersionDefinition list \<Rightarrow> event list" where
  "observer_events options pending =
     (case beforeMigration options of
        None \<Rightarrow> []
      | Some obs \<Rightarrow> [BeforeMigrationCalled (map name pending)])"

definition step_events :: "'u Options \<Rightarrow> 'u MigrationVersionDefinition list \<Rightarrow> nat \<Rightarrow> event list" where
  "step_events options versions i =
     [ConsoleLog (migration_log_line (int i + 1) (name (versions ! i)))]
     @ (case beforeMigrate (versions ! i) of None \<Rightarrow> [] | Some h \<Rightarrow> [BeforeMigrateCalled (int i)])
     @ [MigrateCalled (int i)]
     @ (case beforeQuery options of None \<Rightarrow> [] | Some cb \<Rightarrow> [BeforeQueryCalled upsert_sql])
     @ [SqlExecCalled upsert_sql [PNumber (int i + 1), PNumber (int i + 1)]]
     @ (case afterQuery options of None \<Rightarrow> [] | Some cb \<Rightarrow> [AfterQueryCalled upsert_sql])"

definition failed_step_events ::
  "'u MigrationVersionDefinition list \<Rightarrow> nat \<Rightarrow> 'u storage \<Rightarrow> event list" where
  "failed_step_events versions i s =
     [ConsoleLog (migration_log_line (int i + 1) (name (versions ! i)))]
     @ (case beforeMigrate (versions ! i) of
          None \<Rightarrow> [MigrateCalled (int i)]
        | Some h \<Rightarrow>
            BeforeMigrateCalled (int i) # (if fst (h s) = None then [MigrateCalled (int i)] else []))"


definition failing_versions :: "string list MigrationVersionDefinition list" where
  "failing_versions =
     [\<lparr>name = ''Initial schema'', beforeMigrate = None,
       migrate = (\<lambda>s. (None, s\<lparr>user := user s @ [''users'']\<rparr>))\<rparr>,
      \<lparr>name = ''Add posts table'',
       beforeMigrate = Some (\<lambda>s. (None, s\<lparr>user := user s @ [''check'']\<rparr>)),
       migrate = (\<lambda>s. (Some (Error ''table posts already exists''),
                        s\<lparr>user := user s @ [''partial'']\<rparr>))\<rparr>]"

definition example_options :: "string list Options" where
  "example_options =
     \<lparr>beforeQuery = None,
      afterQuery = Some (\<lambda>q s. (None, s\<lparr>user := user s @ [''written'']\<rparr>)),
      beforeMigration = Some (\<lambda>pending s. (None, s\<lparr>user := user s @ (''pending:'' # map name pending)\<rparr>))\<rparr>"

definition fresh_state :: "string list run_state" where
  "fresh_state = \<lparr>store = \<lparr>metadata = None, user = []\<rparr>, events = []\<rparr>"

section \<open>Expansion of fragments\<close>

text \<open>
  The accumulator loop computes the spliced text and the scalar slots in depth-first order,
  whatever the accumulator holds when it starts.
\<close>

lemma expand_splice_aux:
  "(well_formed f \<longrightarrow> expand f acc =
      \<lparr>acc_query = acc_query acc @ splice_text f, acc_values = acc_values acc @ scalar_slots f\<rparr>)"
  "(length ss = length vs \<and> list_all well_formed_slot vs \<longrightarrow> expand_from ss vs acc =
      \<lparr>acc_query = acc_query acc @ concat (map2 (\<lambda>v s. slot_text v @ s) vs ss),
       acc_values = acc_values acc @ concat (map slot_scalars vs)\<rparr>)"
proof (induction f acc and ss vs acc rule: expand_expand_from.induct)
  case (2 s ss vs acc)
  have il: "length ss = length ts \<Longrightarrow> interleave (s # ss) ts = s @ concat (map2 (\<lambda>t s. t @ s) ts ss)"
    for ts :: "string list" and s ss
    by (induction ss ts arbitrary: s rule: list_induct2') auto
  have z: "map2 (\<lambda>t s. t @ s) (map slot_text vs) ss = map2 (\<lambda>v s. slot_text v @ s) vs ss"
    by (simp add: zip_map1 case_prod_unfold)
  show ?case using 2 il[of ss "map slot_text vs" s]
    by (auto simp: emit_text_def z)
qed (auto simp: emit_text_def emit_param_def)

lemma count_list_concat: "count_list (concat xss) c = sum_list (map (\<lambda>xs. count_list xs c) xss)"
  by (induction xss) auto

lemma count_interleave:
  "length ss = Suc (length ts) \<Longrightarrow>
   count_list (interleave ss ts) c = count_list (concat ss) c + count_list (concat ts) c"
proof (induction ss ts rule: interleave.induct)
  case (2 s ss)
  then show ?case by simp
qed (auto simp: count_list_concat)

lemma sum_list_split:
  "(\<And>v. v \<in> set vs \<Longrightarrow> g v = h v + (l v :: nat)) \<Longrightarrow>
   sum_list (map g vs) = sum_list (map h vs) + sum_list (map l vs)"
  by (induction vs) auto

lemma placeholder_count_aux:
  "well_formed f \<longrightarrow> count_list (splice_text f) (CHR ''?'')
      = count_list (literal_text f) (CHR ''?'') + length (scalar_slots f)"
  "well_formed_slot v \<longrightarrow> count_list (slot_text v) (CHR ''?'')
      = count_list (slot_literal_text v) (CHR ''?'') + length (slot_scalars v)"
proof (induction f and v rule: splice_text_slot_text.induct)
  case (1 ss vs)
  show ?case
  proof
    assume wf: "well_formed (Fragment ss vs)"
    then have len: "length ss = Suc (length (map slot_text vs))" by simp
    have each: "\<And>v. v \<in> set vs \<Longrightarrow> count_list (slot_text v) (CHR ''?'')
        = count_list (slot_literal_text v) (CHR ''?'') + length (slot_scalars v)"
      using 1 wf by (simp add: list_all_iff)
    have "sum_list (map (\<lambda>v. count_list (slot_text v) (CHR ''?'')) vs)
        = sum_list (map (\<lambda>v. count_list (slot_literal_text v) (CHR ''?'')) vs)
          + sum_list (map (\<lambda>v. length (slot_scalars v)) vs)"
      by (rule sum_list_split) (rule each)
    then show "count_list (splice_text (Fragment ss vs)) (CHR ''?'')
        = count_list (literal_text (Fragment ss vs)) (CHR ''?'') + length (scalar_slots (Fragment ss vs))"
      using count_interleave[OF len]
      by (simp add: count_list_concat length_concat comp_def)
  qed
qed simp_all

lemma expandTemplate_well_formed:
  assumes "well_formed (Fragment ss vs)"
  shows "expandTemplate ss vs =
     \<lparr>query = splice_text (Fragment ss vs),
      values_opt = (if scalar_slots (Fragment ss vs) = [] then None
                    else Some (scalar_slots (Fragment ss vs)))\<rparr>"
  using expand_splice_aux(1)[of "Fragment ss vs" "\<lparr>acc_query = [], acc_values = []\<rparr>"] assms
  unfolding expandTemplate_def by (simp add: Let_def)

text \<open>
  C1 (as amended). For every well-formed fragment with \<open>k\<close> scalar slots in its tree, \<open>build\<close>
  returns a statement whose text is the depth-first, left-to-right splice of the literal segments
  with one \<^verbatim>\<open>?\<close> emitted per scalar slot and the text of every nested fragment inlined in place.
  The number of \<^verbatim>\<open>?\<close> characters of the text is \<open>k\<close> plus the number of \<^verbatim>\<open>?\<close> characters that
  the literal segments already hold (literal text is never rewritten). The parameters read from
  the statement are exactly the \<open>k\<close> scalar slot values in that traversal order; the field
  \<^verbatim>\<open>values\<close> is absent, rather than empty, when \<open>k = 0\<close>.
\<close>

theorem build_splices_fragment:
  "well_formed f \<Longrightarrow>
   query (sql_build f) = splice_text f \<and>
   placeholder_count (query (sql_build f))
     = length (scalar_slots f) + placeholder_count (literal_text f) \<and>
   length (statement_values (sql_build f)) = length (scalar_slots f) \<and>
   statement_values (sql_build f) = scalar_slots f \<and>
   (values_opt (sql_build f) = None) = (scalar_slots f = [])"
  using expandTemplate_well_formed[of "templateStrings f" "templateValues f"]
    placeholder_count_aux(1)[of f]
  by (cases f) (simp add: sql_build_def statement_values_def placeholder_count_def)

text \<open>The nested example of the specification: \<^verbatim>\<open>sql`A ${sql`B ${1}`} C`\<close>.\<close>

theorem build_splices_fragment_witness:
  "well_formed (Fragment [''A '', '' C''] [Nested (Fragment [''B '', []] [Scalar (PNumber 1)])]) \<and>
   query (sql_build (Fragment [''A '', '' C''] [Nested (Fragment [''B '', []] [Scalar (PNumber 1)])]))
     = ''A B ? C'' \<and>
   statement_values
     (sql_build (Fragment [''A '', '' C''] [Nested (Fragment [''B '', []] [Scalar (PNumber 1)])]))
     = [PNumber 1] \<and>
   placeholder_count
     (query (sql_build (Fragment [''A '', '' C''] [Nested (Fragment [''B '', []] [Scalar (PNumber 1)])])))
     = 1"
  using build_splices_fragment
    [of "Fragment [''A '', '' C''] [Nested (Fragment [''B '', []] [Scalar (PNumber 1)])]"]
  by (simp add: placeholder_count_def)

text \<open>
  C1 as stated fails where a literal segment holds a \<^verbatim>\<open>?\<close> of its own: the fragment
  \<^verbatim>\<open>sql`SELECT * FROM t WHERE a = ?`\<close> has no slot, and its built text holds one \<^verbatim>\<open>?\<close> with no
  parameter.
\<close>

theorem build_literal_placeholder_counterexample:
  "well_formed (Fragment [''SELECT * FROM t WHERE a = ?''] []) \<and>
   length (scalar_slots (Fragment [''SELECT * FROM t WHERE a = ?''] [])) = 0 \<and>
   placeholder_count (query (sql_build (Fragment [''SELECT * FROM t WHERE a = ?''] []))) = 1 \<and>
   statement_values (sql_build (Fragment [''SELECT * FROM t WHERE a = ?''] [])) = []"
  by (simp add: sql_build_def expandTemplate_def emit_text_def placeholder_count_def
      statement_values_def)

text \<open>
  C4 (as amended). Nothing is coerced when a fragment is built. For every well-formed fragment
  (one more literal segment than slots, at every level) the parameter list of the built statement
  holds, in traversal order, the value of every scalar slot exactly as the caller gave it: a
  boolean stays a boolean, \<^verbatim>\<open>undefined\<close> stays \<^verbatim>\<open>undefined\<close>, a byte view stays the same view,
  and strings, numbers and \<^verbatim>\<open>null\<close> pass through unchanged. A nested fragment contributes its own
  scalar slots, never itself. The field \<^verbatim>\<open>values\<close> is absent when there is no scalar slot. So the
  parameters are those of the coercion table exactly when every scalar slot holds a value that
  the table leaves as it is, which are the strings, the numbers, \<^verbatim>\<open>null\<close> and the whole byte
  buffers.
\<close>

theorem build_values_not_coerced:
  "well_formed f \<Longrightarrow>
   values_opt (sql_build f) = (if scalar_slots f = [] then None else Some (scalar_slots f)) \<and>
   statement_values (sql_build f) = scalar_slots f \<and>
   statement_values (sql_build (Fragment [a, b] [Scalar p])) = [p] \<and>
   statement_values (sql_build (Fragment [a, b] [Nested f])) = scalar_slots f \<and>
   (statement_values (sql_build f) = map coerce_spec (scalar_slots f))
     = (\<forall>q \<in> set (scalar_slots f). coerce_spec q = q) \<and>
   (coerce_spec p = p)
     = ((\<exists>s. p = PString s) \<or> (\<exists>n. p = PNumber n) \<or> p = PNull \<or> (\<exists>bs. p = PArrayBuffer bs))"
proof -
  assume wf: "well_formed f"
  have v: "values_opt (sql_build f) = (if scalar_slots f = [] then None else Some (scalar_slots f))"
    using expandTemplate_well_formed[of "templateStrings f" "templateValues f"] wf
    by (cases f) (simp add: sql_build_def)
  then have sv: "statement_values (sql_build f) = scalar_slots f"
    by (simp add: statement_values_def)
  have one: "statement_values (sql_build (Fragment [a, b] [Scalar p])) = [p]"
    by (simp add: sql_build_def expandTemplate_def emit_text_def emit_param_def
        statement_values_def)
  have wfn: "well_formed (Fragment [a, b] [Nested f])" using wf by simp
  have nested: "statement_values (sql_build (Fragment [a, b] [Nested f])) = scalar_slots f"
    using expandTemplate_well_formed[OF wfn] by (simp add: sql_build_def statement_values_def)
  have same: "(xs = map coerce_spec xs) = (\<forall>q \<in> set xs. coerce_spec q = q)" for xs
    by (induction xs) auto
  have table: "(coerce_spec p = p)
     = ((\<exists>s. p = PString s) \<or> (\<exists>n. p = PNumber n) \<or> p = PNull \<or> (\<exists>bs. p = PArrayBuffer bs))"
    by (cases p) simp_all
  show ?thesis
    using v sv one nested same[of "scalar_slots f"] table by simp
qed

theorem build_values_not_coerced_witness:
  "well_formed (Fragment [''INSERT INTO t VALUES ('', '', '', '')'']
      [Scalar (PBoolean True), Scalar PUndefined]) \<and>
   values_opt (sql_build (Fragment [''INSERT INTO t VALUES ('', '', '', '')'']
      [Scalar (PBoolean True), Scalar PUndefined]))
     = Some [PBoolean True, PUndefined] \<and>
   statement_values (sql_build (Fragment [''INSERT INTO t VALUES ('', '', '', '')'']
      [Scalar (PBoolean True), Scalar PUndefined]))
     \<noteq> map coerce_spec [PBoolean True, PUndefined]"
  using build_values_not_coerced
    [of "Fragment [''INSERT INTO t VALUES ('', '', '', '')''] [Scalar (PBoolean True), Scalar PUndefined]"]
  by simp

text \<open>
  C4 as stated fails: the statement built from \<^verbatim>\<open>sql`SELECT ${true}`\<close> carries the boolean
  itself, not the string \<^verbatim>\<open>"true"\<close> of the coercion table.
\<close>

theorem build_boolean_counterexample:
  "statement_values (sql_build (Fragment [''SELECT '', []] [Scalar (PBoolean True)]))
     = [PBoolean True] \<and>
   map coerce_spec (scalar_slots (Fragment [''SELECT '', []] [Scalar (PBoolean True)]))
     = [PString ''true''] \<and>
   statement_values (sql_build (Fragment [''SELECT '', []] [Scalar (PBoolean True)]))
     \<noteq> map coerce_spec (scalar_slots (Fragment [''SELECT '', []] [Scalar (PBoolean True)]))"
  by (simp add: sql_build_def expandTemplate_def emit_text_def emit_param_def statement_values_def)

section \<open>The join and list helpers\<close>

lemma interleave_placeholders:
  "interleave (s # replicate n sep @ [t]) (replicate (Suc n) ''?'')
     = s @ ''?'' @ concat (replicate n (sep @ ''?'')) @ t"
  by (induction n arbitrary: s) simp_all

lemma list_all_Scalar: "list_all well_formed_slot (map Scalar vs)"
  by (induction vs) simp_all

lemma slot_text_Scalar: "map slot_text (map Scalar vs) = replicate (length vs) ''?''"
  by (induction vs) simp_all

lemma slot_scalars_Scalar: "concat (map slot_scalars (map Scalar vs)) = vs"
  by (induction vs) simp_all

lemma expandTemplate_separated:
  "expandTemplate (s # replicate (length vs) sep @ [t]) (map Scalar (v # vs))
     = \<lparr>query = s @ ''?'' @ concat (replicate (length vs) (sep @ ''?'')) @ t,
        values_opt = Some (v # vs)\<rparr>"
proof -
  have wf: "well_formed (Fragment (s # replicate (length vs) sep @ [t]) (map Scalar (v # vs)))"
    using list_all_Scalar[of vs] by simp
  have spl: "splice_text (Fragment (s # replicate (length vs) sep @ [t]) (map Scalar (v # vs)))
      = s @ ''?'' @ concat (replicate (length vs) (sep @ ''?'')) @ t"
    using interleave_placeholders[of s "length vs" sep t] slot_text_Scalar[of vs] by simp
  have sc: "scalar_slots (Fragment (s # replicate (length vs) sep @ [t]) (map Scalar (v # vs))) = v # vs"
    using slot_scalars_Scalar[of vs] by simp
  show ?thesis
    using expandTemplate_well_formed[OF wf] spl sc by simp
qed

lemma count_list_replicate_concat:
  "count_list (concat (replicate n xs)) c = n * count_list xs c"
  by (induction n) simp_all

lemma sql_join_well_formed: "well_formed (sql_join vs)"
  using list_all_Scalar[of vs] by (cases vs) (simp_all add: sql_join_def join_templateStrings_def)

lemma sql_list_well_formed: "well_formed (sql_list vs)"
  using list_all_Scalar[of vs] by (cases vs) (simp_all add: sql_list_def list_templateStrings_def)

lemma sql_join_scalar_slots: "scalar_slots (sql_join vs) = vs"
  using slot_scalars_Scalar[of vs] by (simp add: sql_join_def)

lemma sql_list_scalar_slots: "scalar_slots (sql_list vs) = vs"
  using slot_scalars_Scalar[of vs] by (simp add: sql_list_def)

lemma sql_join_splice_text:
  "splice_text (sql_join vs)
     = (case vs of [] \<Rightarrow> ''NULL'' | v # vs' \<Rightarrow> ''?'' @ concat (replicate (length vs') '', ?''))"
proof (cases vs)
  case Nil
  then show ?thesis by (simp add: sql_join_def join_templateStrings_def)
next
  case (Cons v vs')
  then show ?thesis
    using interleave_placeholders[of "[]" "length vs'" "'', ''" "[]"] slot_text_Scalar[of vs']
    by (simp add: sql_join_def join_templateStrings_def)
qed

lemma sql_list_splice_text:
  "splice_text (sql_list vs)
     = (case vs of [] \<Rightarrow> ''(NULL)''
        | v # vs' \<Rightarrow> ''(?'' @ concat (replicate (length vs') '', ?'') @ '')'')"
proof (cases vs)
  case Nil
  then show ?thesis by (simp add: sql_list_def list_templateStrings_def)
next
  case (Cons v vs')
  then show ?thesis
    using interleave_placeholders[of "''(''" "length vs'" "'', ''" "'')''"] slot_text_Scalar[of vs']
    by (simp add: sql_list_def list_templateStrings_def)
qed

lemma build_spliced:
  assumes "well_formed g"
  shows "sql_build (Fragment [a, b] [Nested g])
     = \<lparr>query = a @ splice_text g @ b,
        values_opt = (if scalar_slots g = [] then None else Some (scalar_slots g))\<rparr>"
proof -
  have wf: "well_formed (Fragment [a, b] [Nested g])" using assms by simp
  show ?thesis using expandTemplate_well_formed[OF wf] by (simp add: sql_build_def)
qed

text \<open>
  C7. \<^verbatim>\<open>sql.join\<close> (and \<^verbatim>\<open>sql.list\<close> of the earlier revision): the empty array builds the
  literal \<^verbatim>\<open>NULL\<close> (\<^verbatim>\<open>(NULL)\<close> for the list) with no placeholder and no parameter; an array of
  \<open>k \<ge> 1\<close> values builds \<open>k\<close> placeholders separated by \<open>k - 1\<close> occurrences of \<^verbatim>\<open>", "\<close>, with
  the values as parameters in input order (one value: one placeholder and no separator). This
  holds of the \<^verbatim>\<open>build\<close> method of the object that the helper returns, of the fragment it
  returns when that is built as a fragment, and of the fragment spliced into an enclosing
  template \<^verbatim>\<open>sql`a${helper(values)}b`\<close>: the helper's text appears in place, between the two
  literal segments, and the parameters are the values, in input order.
\<close>

theorem join_list_placeholders:
  "join_build [] = \<lparr>query = ''NULL'', values_opt = None\<rparr> \<and>
   list_build [] = \<lparr>query = ''(NULL)'', values_opt = Some []\<rparr> \<and>
   join_build (v # vs)
     = \<lparr>query = ''?'' @ concat (replicate (length vs) '', ?''), values_opt = Some (v # vs)\<rparr> \<and>
   list_build (v # vs)
     = \<lparr>query = ''(?'' @ concat (replicate (length vs) '', ?'') @ '')'', values_opt = Some (v # vs)\<rparr> \<and>
   placeholder_count (query (join_build (v # vs))) = length (v # vs) \<and>
   placeholder_count (query (list_build (v # vs))) = length (v # vs) \<and>
   count_list (query (join_build (v # vs))) (CHR '','') = length (v # vs) - 1 \<and>
   count_list (query (list_build (v # vs))) (CHR '','') = length (v # vs) - 1 \<and>
   placeholder_count (query (join_build [])) = 0 \<and>
   placeholder_count (query (list_build [])) = 0 \<and>
   statement_values (join_build []) = [] \<and>
   statement_values (list_build []) = [] \<and>
   sql_build (sql_join vs') = join_build vs' \<and>
   query (sql_build (sql_list vs')) = query (list_build vs') \<and>
   statement_values (sql_build (sql_join vs')) = vs' \<and>
   statement_values (sql_build (sql_list vs')) = vs' \<and>
   statement_values (join_build vs') = vs' \<and>
   statement_values (list_build vs') = vs' \<and>
   query (sql_build (Fragment [a, b] [Nested (sql_join vs')])) = a @ query (join_build vs') @ b \<and>
   query (sql_build (Fragment [a, b] [Nested (sql_list vs')])) = a @ query (list_build vs') @ b \<and>
   statement_values (sql_build (Fragment [a, b] [Nested (sql_join vs')])) = vs' \<and>
   statement_values (sql_build (Fragment [a, b] [Nested (sql_list vs')])) = vs'"
proof -
  have j: "join_build (v # vs)
     = \<lparr>query = ''?'' @ concat (replicate (length vs) '', ?''), values_opt = Some (v # vs)\<rparr>"
    for v vs
    using expandTemplate_separated[of "[]" vs "'', ''" "[]" v]
    by (simp add: join_build_def join_templateStrings_def)
  have l: "list_build (v # vs)
     = \<lparr>query = ''(?'' @ concat (replicate (length vs) '', ?'') @ '')'', values_opt = Some (v # vs)\<rparr>"
    for v vs
    using expandTemplate_separated[of "''(''" vs "'', ''" "'')''" v]
    by (simp add: list_build_def list_templateStrings_def)
  have j0: "join_build [] = \<lparr>query = ''NULL'', values_opt = None\<rparr>"
    by (simp add: join_build_def)
  have l0: "list_build [] = \<lparr>query = ''(NULL)'', values_opt = Some []\<rparr>"
    by (simp add: list_build_def)
  have e: "sql_build (sql_join vs') = join_build vs'"
    by (cases vs')
      (simp_all add: sql_build_def sql_join_def join_build_def join_templateStrings_def
        expandTemplate_def emit_text_def)
  have e': "query (sql_build (sql_list vs')) = query (list_build vs')"
    by (cases vs')
      (simp_all add: sql_build_def sql_list_def list_build_def list_templateStrings_def
        expandTemplate_def emit_text_def)
  have jv: "statement_values (join_build vs') = vs'"
    by (cases vs') (simp_all add: j j0 statement_values_def)
  have lv: "statement_values (list_build vs') = vs'"
    by (cases vs') (simp_all add: l l0 statement_values_def)
  have jq: "query (join_build vs') = splice_text (sql_join vs')"
    by (cases vs') (simp_all add: j j0 sql_join_splice_text)
  have lq: "query (list_build vs') = splice_text (sql_list vs')"
    by (cases vs') (simp_all add: l l0 sql_list_splice_text)
  have lf: "sql_build (sql_list vs')
      = \<lparr>query = splice_text (sql_list vs'), values_opt = (if vs' = [] then None else Some vs')\<rparr>"
    using expandTemplate_well_formed[of "list_templateStrings vs'" "map Scalar vs'"]
      sql_list_well_formed[of vs'] sql_list_scalar_slots[of vs']
    by (simp add: sql_build_def sql_list_def)
  have fv: "statement_values (sql_build (sql_list vs')) = vs'"
    by (simp add: lf statement_values_def)
  have nj: "sql_build (Fragment [a, b] [Nested (sql_join vs')])
      = \<lparr>query = a @ query (join_build vs') @ b,
         values_opt = (if vs' = [] then None else Some vs')\<rparr>"
    using build_spliced[OF sql_join_well_formed, of a b vs']
    by (simp add: jq sql_join_scalar_slots)
  have nl: "sql_build (Fragment [a, b] [Nested (sql_list vs')])
      = \<lparr>query = a @ query (list_build vs') @ b,
         values_opt = (if vs' = [] then None else Some vs')\<rparr>"
    using build_spliced[OF sql_list_well_formed, of a b vs']
    by (simp add: lq sql_list_scalar_slots)
  have first: "join_build [] = \<lparr>query = ''NULL'', values_opt = None\<rparr> \<and>
   list_build [] = \<lparr>query = ''(NULL)'', values_opt = Some []\<rparr> \<and>
   join_build (v # vs)
     = \<lparr>query = ''?'' @ concat (replicate (length vs) '', ?''), values_opt = Some (v # vs)\<rparr> \<and>
   list_build (v # vs)
     = \<lparr>query = ''(?'' @ concat (replicate (length vs) '', ?'') @ '')'', values_opt = Some (v # vs)\<rparr> \<and>
   placeholder_count (query (join_build (v # vs))) = length (v # vs) \<and>
   placeholder_count (query (list_build (v # vs))) = length (v # vs) \<and>
   count_list (query (join_build (v # vs))) (CHR '','') = length (v # vs) - 1 \<and>
   count_list (query (list_build (v # vs))) (CHR '','') = length (v # vs) - 1 \<and>
   placeholder_count (query (join_build [])) = 0 \<and>
   placeholder_count (query (list_build [])) = 0 \<and>
   statement_values (join_build []) = [] \<and>
   statement_values (list_build []) = []"
    by (simp add: j l placeholder_count_def count_list_replicate_concat)
      (simp add: join_build_def list_build_def statement_values_def)
  have second: "statement_values (sql_build (sql_join vs')) = vs' \<and>
   statement_values (sql_build (sql_list vs')) = vs' \<and>
   statement_values (join_build vs') = vs' \<and>
   statement_values (list_build vs') = vs' \<and>
   query (sql_build (Fragment [a, b] [Nested (sql_join vs')])) = a @ query (join_build vs') @ b \<and>
   query (sql_build (Fragment [a, b] [Nested (sql_list vs')])) = a @ query (list_build vs') @ b \<and>
   statement_values (sql_build (Fragment [a, b] [Nested (sql_join vs')])) = vs' \<and>
   statement_values (sql_build (Fragment [a, b] [Nested (sql_list vs')])) = vs'"
    using jv lv fv by (simp add: e nj nl) (simp add: statement_values_def)
  show ?thesis
    using first e e' second by blast
qed

section \<open>Query shapes\<close>

lemma map_rows_length: "map_rows m R = Inr R' \<Longrightarrow> length R' = length R"
  by (induction R arbitrary: R') (auto split: sum.splits)

lemma map_rows_total: "map_rows (\<lambda>r. Inr (g r)) R = Inr (map g R)"
  by (induction R) simp_all

text \<open>
  C6. For a statement without a mapper whose execution returns the rows \<open>R\<close>:
  \<^verbatim>\<open>queryOne\<close> returns \<open>R[0]\<close> when \<open>|R| = 1\<close> and otherwise throws "Expected one row, got |R|";
  \<^verbatim>\<open>queryNoneOrOne\<close> returns \<^verbatim>\<open>null\<close> for no row, \<open>R[0]\<close> for one, and throws
  "Expected at most one row, got |R|" for two or more; \<^verbatim>\<open>queryNone\<close> returns nothing and throws
  "Expected no rows, got |R|" when there is a row; \<^verbatim>\<open>queryMany\<close> returns \<open>R\<close> unchanged, also
  when it is empty.
\<close>

theorem query_shapes:
  assumes "mapper_of statement = None"
    and "exec (query (build_statement statement)) (statement_values (build_statement statement)) s
           = (Inr R, s')"
  shows "queryOne exec statement s
           = ((if length R = 1 then Inr (R ! 0)
               else Inl (Error (''Expected one row, got '' @ decimal_digits (length R)))), s') \<and>
         queryNoneOrOne exec statement s
           = ((if length R = 0 then Inr None
               else if length R = 1 then Inr (Some (R ! 0))
               else Inl (Error (''Expected at most one row, got '' @ decimal_digits (length R)))), s') \<and>
         queryNone exec statement s
           = ((if length R = 0 then Inr ()
               else Inl (Error (''Expected no rows, got '' @ decimal_digits (length R)))), s') \<and>
         queryMany exec statement s = (Inr R, s')"
proof (cases R)
  case Nil
  with assms show ?thesis
    by (simp add: queryOne_def queryNoneOrOne_def queryNone_def queryMany_def queryCommon_def Let_def)
next
  case (Cons r rs)
  with assms show ?thesis
    by (cases rs)
      (simp_all add: queryOne_def queryNoneOrOne_def queryNone_def queryMany_def queryCommon_def
        Let_def)
qed

theorem query_shapes_witness:
  "queryOne (\<lambda>q vs s. (Inr [[(''id'', SNumber 1)], [(''id'', SNumber 2)]], s))
      (Plain (Fragment [''SELECT id FROM users''] [])) ()
     = (Inl (Error ''Expected one row, got 2''), ()) \<and>
   queryNoneOrOne (\<lambda>q vs s. (Inr [[(''id'', SNumber 1)], [(''id'', SNumber 2)]], s))
      (Plain (Fragment [''SELECT id FROM users''] [])) ()
     = (Inl (Error ''Expected at most one row, got 2''), ()) \<and>
   queryNone (\<lambda>q vs s. (Inr [[(''id'', SNumber 1)], [(''id'', SNumber 2)]], s))
      (Plain (Fragment [''SELECT id FROM users''] [])) ()
     = (Inl (Error ''Expected no rows, got 2''), ()) \<and>
   queryMany (\<lambda>q vs s. (Inr [[(''id'', SNumber 1)], [(''id'', SNumber 2)]], s))
      (Plain (Fragment [''SELECT id FROM users''] [])) ()
     = (Inr [[(''id'', SNumber 1)], [(''id'', SNumber 2)]], ())"
  using query_shapes
    [of "Plain (Fragment [''SELECT id FROM users''] [])"
        "\<lambda>q vs s. (Inr [[(''id'', SNumber 1)], [(''id'', SNumber 2)]], s)"
        "()" "[[(''id'', SNumber 1)], [(''id'', SNumber 2)]]" "()"]
  by (simp add: decimal_digits.simps digit_char_def)

text \<open>
  C5 (as amended). For a statement carrying a row mapper whose execution returns the rows \<open>R\<close>,
  the mapper is applied to the rows of \<open>R\<close>, in order, inside \<^verbatim>\<open>queryCommon\<close>, that is before the
  call shape checks the number of rows: if the mapper throws on a row, every shape throws that
  error, whatever the number of rows; if it returns for every row, the shape checks the mapped
  rows, which are as many as the raw rows, so that a cardinality error states the raw row count of
  \<open>R\<close>, and the value returned is the mapped row.
\<close>

theorem mapper_runs_before_cardinality_check:
  assumes "exec (query (build_statement (Mapped f m))) (statement_values (build_statement (Mapped f m))) s
             = (Inr R, s')"
  shows "queryOne exec (Mapped f m) s
           = ((case map_rows m R of
                 Inl e \<Rightarrow> Inl e
               | Inr R' \<Rightarrow>
                   if length R = 1 then Inr (R' ! 0)
                   else Inl (Error (''Expected one row, got '' @ decimal_digits (length R)))), s') \<and>
         queryNoneOrOne exec (Mapped f m) s
           = ((case map_rows m R of
                 Inl e \<Rightarrow> Inl e
               | Inr R' \<Rightarrow>
                   if length R = 0 then Inr None
                   else if length R = 1 then Inr (Some (R' ! 0))
                   else Inl (Error (''Expected at most one row, got '' @ decimal_digits (length R)))), s') \<and>
         queryNone exec (Mapped f m) s
           = ((case map_rows m R of
                 Inl e \<Rightarrow> Inl e
               | Inr R' \<Rightarrow>
                   if length R = 0 then Inr ()
                   else Inl (Error (''Expected no rows, got '' @ decimal_digits (length R)))), s') \<and>
         queryMany exec (Mapped f m) s = (map_rows m R, s') \<and>
         map_rows (\<lambda>r. Inr (g r)) R = Inr (map g R)"
proof (cases R)
  case Nil
  with assms show ?thesis
    by (simp add: queryOne_def queryNoneOrOne_def queryNone_def queryMany_def queryCommon_def
        Let_def)
next
  case (Cons r rs)
  with assms map_rows_length[of m R] show ?thesis
    by (cases rs)
      (auto simp: queryOne_def queryNoneOrOne_def queryNone_def queryMany_def queryCommon_def
        Let_def map_rows_total split: sum.splits)
qed

theorem mapper_runs_before_cardinality_check_witness:
  "queryOne (\<lambda>q vs s. (Inr [[(''id'', SNumber 1)], [(''id'', SNumber 2)]], s))
      (Mapped (Fragment [''SELECT id FROM users''] []) (\<lambda>r. Inr ((''mapped'', SNull) # r))) ()
     = (Inl (Error ''Expected one row, got 2''), ()) \<and>
   queryMany (\<lambda>q vs s. (Inr [[(''id'', SNumber 1)], [(''id'', SNumber 2)]], s))
      (Mapped (Fragment [''SELECT id FROM users''] []) (\<lambda>r. Inr ((''mapped'', SNull) # r))) ()
     = (Inr [[(''mapped'', SNull), (''id'', SNumber 1)], [(''mapped'', SNull), (''id'', SNumber 2)]], ())"
  using mapper_runs_before_cardinality_check
    [of "\<lambda>q vs s. (Inr [[(''id'', SNumber 1)], [(''id'', SNumber 2)]], s)"
        "Fragment [''SELECT id FROM users''] []" "\<lambda>r. Inr ((''mapped'', SNull) # r)"
        "()" "[[(''id'', SNumber 1)], [(''id'', SNumber 2)]]" "()"]
  by (simp add: decimal_digits.simps digit_char_def)

text \<open>
  C5 as stated fails: with two rows \<^verbatim>\<open>queryOne\<close> must fail its cardinality check, yet the mapper
  has been applied before it, and it is the mapper's error that surfaces, not "Expected one row,
  got 2".
\<close>

theorem mapper_applied_counterexample:
  "fst (queryOne (\<lambda>q vs s. (Inr [[(''id'', SNumber 1)], [(''id'', SNumber 2)]], s))
      (Mapped (Fragment [''SELECT id FROM users''] []) (\<lambda>r. Inl (Error ''mapper was applied''))) ())
     = Inl (Error ''mapper was applied'') \<and>
   fst (queryOne (\<lambda>q vs s. (Inr [[(''id'', SNumber 1)], [(''id'', SNumber 2)]], s))
      (Mapped (Fragment [''SELECT id FROM users''] []) (\<lambda>r. Inl (Error ''mapper was applied''))) ())
     \<noteq> Inl (Error ''Expected one row, got 2'')"
  by (simp add: queryOne_def queryCommon_def Let_def)

section \<open>Reading the schema version\<close>

lemma getSchemaVersion_store: "snd (getSchemaVersion s) = exec_create_metadata s"
  by (simp add: getSchemaVersion_def Let_def split: sum.splits list.splits SqlStorageValue.splits)

lemma getSchemaVersion_row:
  "fst (getSchemaVersion s) =
     (case schema_version_row s of
        None \<Rightarrow> Inr 0
      | Some (SNumber n) \<Rightarrow> Inr n
      | Some v \<Rightarrow> Inl (Error (''Invalid schema_version: '' @ js_template_string v
                                @ '' ('' @ js_typeof v @ '')'')))"
  by (simp add: getSchemaVersion_def schema_version_row_def exec_create_metadata_def
      exec_select_schema_version_def Let_def split: option.splits SqlStorageValue.splits)

lemma schema_version_row_create [simp]:
  "schema_version_row (exec_create_metadata s) = schema_version_row s"
  by (simp add: schema_version_row_def exec_create_metadata_def split: option.splits)

lemma metadata_create: "metadata (exec_create_metadata s) \<noteq> None"
  by (simp add: exec_create_metadata_def split: option.splits)

lemma js_slice_pending:
  "0 \<le> v \<Longrightarrow> js_slice v (int (length xs)) xs = drop (nat v) xs"
  by (simp add: js_slice_def Let_def min_def)

lemma js_slice_beyond:
  "int (length xs) < v \<Longrightarrow> js_slice v (int (length xs)) xs = []"
  by (simp add: js_slice_def Let_def min_def)


lemma getSchemaVersion_reads:
  "fst (getSchemaVersion s) = Inr v \<Longrightarrow> getSchemaVersion s = (Inr v, exec_create_metadata s)"
  using getSchemaVersion_store[of s] by (cases "getSchemaVersion s") simp

section \<open>Sequences of calls\<close>

lemma then_call_simps [simp]:
  "then_call (None, s) h = h s"
  "then_call (Some e, s) h = (Some e, s)"
  by (simp_all add: then_call_def)

lemma then_call_returns:
  "then_call r h = (None, s') \<longleftrightarrow> (\<exists>s. r = (None, s) \<and> h s = (None, s'))"
  by (cases r; cases "fst r") (auto simp: then_call_def)

lemma optional_hook_simps [simp]:
  "optional_hook None s = (None, s)"
  "optional_hook (Some h) s = h s"
  by (simp_all add: optional_hook_def)

lemma build_schema_version:
  "sql_build (schema_version_fragment n)
     = \<lparr>query = upsert_sql, values_opt = Some [PNumber n, PNumber n]\<rparr>"
  by (simp add: schema_version_fragment_def sql_build_def expandTemplate_def emit_text_def
      emit_param_def upsert_sql_def)

lemma upsert_writes_version:
  "storage_sql_exec upsert_sql [PNumber n, PNumber n] s = write_version n s"
  by (simp add: storage_sql_exec_def exec_upsert_schema_version_def write_version_def
      split: option.splits)

lemma db_run_outcome:
  "(fst (db_run options (Plain (schema_version_fragment n)) st),
    store (snd (db_run options (Plain (schema_version_fragment n)) st)))
     = persist_version options n (store st)"
  by (auto simp: db_run_def persist_version_def call_hook_def build_schema_version
      statement_values_def upsert_writes_version Let_def then_call_def
      split: option.splits prod.splits)

lemma db_run_events:
  "fst (db_run options (Plain (schema_version_fragment n)) st) = None \<Longrightarrow>
   events (snd (db_run options (Plain (schema_version_fragment n)) st))
     = events st
       @ (case beforeQuery options of None \<Rightarrow> [] | Some cb \<Rightarrow> [BeforeQueryCalled upsert_sql])
       @ [SqlExecCalled upsert_sql [PNumber n, PNumber n]]
       @ (case afterQuery options of None \<Rightarrow> [] | Some cb \<Rightarrow> [AfterQueryCalled upsert_sql])"
  by (auto simp: db_run_def call_hook_def build_schema_version statement_values_def Let_def
      split: option.splits prod.splits)


section \<open>One step of a migration run\<close>

lemma migrateStep_hooks_raise:
  assumes "step_hooks d (store st) = (Some e, s')"
  shows "migrateStep options d v st
     = (Some e,
        \<lparr>store = s',
         events = events st
           @ [ConsoleLog (migration_log_line (v + 1) (name d))]
           @ (case beforeMigrate d of
                None \<Rightarrow> [MigrateCalled v]
              | Some h \<Rightarrow>
                  BeforeMigrateCalled v # (if fst (h (store st)) = None then [MigrateCalled v] else []))\<rparr>)"
  using assms
  by (auto simp: migrateStep_def step_hooks_def call_hook_def Let_def then_call_def
      split: option.splits prod.splits)

lemma migrateStep_outcome:
  "(fst (migrateStep options d v st), store (snd (migrateStep options d v st)))
     = complete_step options d v (store st)"
proof (cases "step_hooks d (store st)")
  case (Pair r s')
  show ?thesis
  proof (cases r)
    case (Some e)
    then show ?thesis
      using migrateStep_hooks_raise[of d st e s' options v] Pair
      by (simp add: complete_step_def)
  next
    case None
    have "migrateStep options d v st
        = db_run options (Plain (schema_version_fragment (v + 1)))
            \<lparr>store = s',
             events = events st
               @ [ConsoleLog (migration_log_line (v + 1) (name d))]
               @ (case beforeMigrate d of None \<Rightarrow> [] | Some h \<Rightarrow> [BeforeMigrateCalled v])
               @ [MigrateCalled v]\<rparr>"
      using Pair None
      by (auto simp: migrateStep_def step_hooks_def call_hook_def Let_def then_call_def
          split: option.splits prod.splits)
    then show ?thesis
      using Pair None db_run_outcome[of options "v + 1"]
      by (simp add: complete_step_def)
  qed
qed

lemma migrateStep_completes:
  assumes "fst (migrateStep options d v st) = None"
  shows "events (snd (migrateStep options d v st))
     = events st
       @ [ConsoleLog (migration_log_line (v + 1) (name d))]
       @ (case beforeMigrate d of None \<Rightarrow> [] | Some h \<Rightarrow> [BeforeMigrateCalled v])
       @ [MigrateCalled v]
       @ (case beforeQuery options of None \<Rightarrow> [] | Some cb \<Rightarrow> [BeforeQueryCalled upsert_sql])
       @ [SqlExecCalled upsert_sql [PNumber (v + 1), PNumber (v + 1)]]
       @ (case afterQuery options of None \<Rightarrow> [] | Some cb \<Rightarrow> [AfterQueryCalled upsert_sql])"
proof (cases "step_hooks d (store st)")
  case (Pair r s')
  show ?thesis
  proof (cases r)
    case (Some e)
    then show ?thesis
      using migrateStep_hooks_raise[of d st e s' options v] Pair assms by simp
  next
    case None
    let ?st2 = "\<lparr>store = s',
             events = events st
               @ [ConsoleLog (migration_log_line (v + 1) (name d))]
               @ (case beforeMigrate d of None \<Rightarrow> [] | Some h \<Rightarrow> [BeforeMigrateCalled v])
               @ [MigrateCalled v]\<rparr>"
    have run: "migrateStep options d v st
        = db_run options (Plain (schema_version_fragment (v + 1))) ?st2"
      using Pair None
      by (auto simp: migrateStep_def step_hooks_def call_hook_def Let_def then_call_def
          split: option.splits prod.splits)
    have "fst (db_run options (Plain (schema_version_fragment (v + 1))) ?st2) = None"
      using assms run by simp
    from db_run_events[OF this] show ?thesis
      using run by simp
  qed
qed


section \<open>The loop over the pending steps\<close>


lemma migrateLoop_step:
  "n < length versions \<Longrightarrow>
   migrateLoop options versions (int n) st
     = (case migrateStep options (versions ! n) (int n) st of
          (Some e, st') \<Rightarrow> (Some e, st')
        | (None, st') \<Rightarrow> migrateLoop options versions (int (Suc n)) st')"
proof -
  have e: "int n + 1 = int (Suc n)" by simp
  assume "n < length versions"
  then show ?thesis
    by (subst migrateLoop.simps) (simp add: e del: of_nat_Suc split: prod.splits option.splits)
qed



lemma migrateLoop_prefix:
  "n + j \<le> length versions \<Longrightarrow>
   pending_steps options (take j (drop n versions)) (int n) (store st) = (None, s') \<Longrightarrow>
   migrateLoop options versions (int n) st
     = migrateLoop options versions (int (n + j))
         \<lparr>store = s',
          events = events st @ concat (map (step_events options versions) [n..<n + j])\<rparr>"
proof (induction j arbitrary: n st)
  case 0
  then show ?case by (cases st) simp
next
  case (Suc j)
  then have lt: "n < length versions" by simp
  have tk: "take (Suc j) (drop n versions) = versions ! n # take j (drop (Suc n) versions)"
    using lt by (simp add: Cons_nth_drop_Suc[symmetric])
  obtain s1 where c1: "complete_step options (versions ! n) (int n) (store st) = (None, s1)"
    and c2: "pending_steps options (take j (drop (Suc n) versions)) (int (Suc n)) s1 = (None, s')"
    using Suc.prems(2) unfolding tk by (auto simp: then_call_returns add.commute)
  obtain r st' where step: "migrateStep options (versions ! n) (int n) st = (r, st')"
    by (cases "migrateStep options (versions ! n) (int n) st")
  have out: "r = None" "store st' = s1"
    using migrateStep_outcome[of options "versions ! n" "int n" st] step c1 by simp_all
  have ev: "events st' = events st @ step_events options versions n"
    using migrateStep_completes[of options "versions ! n" "int n" st] step out(1)
    by (simp add: step_events_def)
  have le: "Suc n + j \<le> length versions" using Suc.prems(1) by simp
  have c2': "pending_steps options (take j (drop (Suc n) versions)) (int (Suc n)) (store st') = (None, s')"
    using c2 out(2) by simp
  have upt: "[n..<n + Suc j] = n # [Suc n..<Suc n + j]"
    by (simp add: upt_conv_Cons)
  show ?case
    using Suc.IH[OF le c2'] step out(1) lt ev upt
    by (simp add: migrateLoop_step)
qed

section \<open>Migration runs\<close>

lemma persist_version_row:
  assumes "after_query_preserves_metadata options" and "persist_version options n s = (None, s')"
  shows "schema_version_row s' = Some (SNumber n)"
proof -
  obtain s1 s2 where w: "write_version n s1 = (None, s2)"
    and a: "optional_hook (map_option (\<lambda>cb. cb upsert_sql) (afterQuery options)) s2 = (None, s')"
    using assms(2) by (auto simp: persist_version_def then_call_returns)
  have "schema_version_row s2 = Some (SNumber n)"
    using w by (auto simp: write_version_def schema_version_row_def split: option.splits)
  moreover have "metadata s' = metadata s2"
  proof (cases "afterQuery options")
    case None
    then show ?thesis using a by simp
  next
    case (Some cb)
    then have "metadata (snd (cb upsert_sql s2)) = metadata s2"
      using assms(1) by (simp add: after_query_preserves_metadata_def preserves_metadata_def)
    then show ?thesis using a Some by simp
  qed
  ultimately show ?thesis by (simp add: schema_version_row_def)
qed

lemma pending_steps_row:
  "after_query_preserves_metadata options \<Longrightarrow> pending_steps options ds i s = (None, s') \<Longrightarrow>
   ds \<noteq> [] \<Longrightarrow> schema_version_row s' = Some (SNumber (i + int (length ds)))"
proof (induction ds arbitrary: i s)
  case Nil
  then show ?case by simp
next
  case (Cons d ds)
  obtain s1 where c1: "complete_step options d i s = (None, s1)"
    and c2: "pending_steps options ds (i + 1) s1 = (None, s')"
    using Cons.prems(2) by (auto simp: then_call_returns)
  show ?case
  proof (cases "ds = []")
    case True
    then have "s' = s1" using c2 by simp
    moreover have "schema_version_row s1 = Some (SNumber (i + 1))"
      using c1 persist_version_row[OF Cons.prems(1)]
      by (auto simp: complete_step_def then_call_returns)
    ultimately show ?thesis using True by simp
  next
    case False
    from Cons.IH[OF Cons.prems(1) c2 False] show ?thesis by (simp add: add.assoc add.commute)
  qed
qed



lemma step_hooks_preserve:
  assumes "step_preserves_metadata d"
  shows "metadata (snd (step_hooks d s)) = metadata s"
proof -
  have m: "\<And>s. metadata (snd (migrate d s)) = metadata s"
    using assms by (simp add: step_preserves_metadata_def preserves_metadata_def)
  show ?thesis
  proof (cases "beforeMigrate d")
    case None
    then show ?thesis using m by (simp add: step_hooks_def)
  next
    case (Some h)
    then have b: "metadata (snd (h s)) = metadata s"
      using assms by (simp add: step_preserves_metadata_def preserves_metadata_def)
    obtain r s1 where h: "h s = (r, s1)" by (cases "h s")
    show ?thesis
      using Some h b m[of s1] by (cases r) (simp_all add: step_hooks_def)
  qed
qed

lemma observer_call_preserve:
  "observer_preserves_metadata options \<Longrightarrow> metadata (snd (observer_call options pending s)) = metadata s"
  by (cases "beforeMigration options")
    (simp_all add: observer_call_def observer_preserves_metadata_def preserves_metadata_def)

lemma migrateDatabase_pending:
  fixes st :: "'u run_state"
  assumes "fst (getSchemaVersion (store st)) = Inr v" and "0 \<le> v" and "v < int (length versions)"
  shows "migrateDatabase versions options st
     = (case observer_call options (drop (nat v) versions) (exec_create_metadata (store st)) of
          (Some e, s2) \<Rightarrow>
            (Some e, \<lparr>store = s2,
                      events = events st @ observer_events options (drop (nat v) versions)\<rparr>)
        | (None, s2) \<Rightarrow>
            migrateLoop options versions v
              \<lparr>store = s2, events = events st @ observer_events options (drop (nat v) versions)\<rparr>)"
proof -
  have gsv: "getSchemaVersion (store st) = (Inr v, exec_create_metadata (store st))"
    using assms(1) by (rule getSchemaVersion_reads)
  have sl: "js_slice v (int (length versions)) versions = drop (nat v) versions"
    using assms(2) by (rule js_slice_pending)
  have upd: "st\<lparr>store := exec_create_metadata (store st)\<rparr>
      = \<lparr>store = exec_create_metadata (store st), events = events st\<rparr>"
    by (cases st) simp
  show ?thesis
    using gsv sl assms(3)
    by (auto simp: migrateDatabase_def Let_def observer_call_def observer_events_def call_hook_def
        upd split: option.splits prod.splits)
qed



lemmas spec_run_defs =
  pending_run_def observer_call_def complete_step_def step_hooks_def persist_version_def
  write_version_def exec_create_metadata_def getSchemaVersion_def exec_select_schema_version_def
  Let_def

lemmas spec_event_defs =
  observer_events_def step_events_def failed_step_events_def migration_log_line_def
  number_to_string_def decimal_digits.simps digit_char_def upt_conv_Cons


lemmas run_defs =
  migrateDatabase_def migrateLoop.simps migrateStep_def db_run_def call_hook_def
  build_schema_version statement_values_def storage_sql_exec_def exec_upsert_schema_version_def
  getSchemaVersion_def exec_create_metadata_def exec_select_schema_version_def js_slice_def Let_def



section \<open>The status read\<close>

text \<open>
  C9 (as amended). \<^verbatim>\<open>getMigrationStatus\<close> changes the storage in one way only: when the table
  \<^verbatim>\<open>metadata\<close> does not exist it is created, empty; an existing table, its rows, and all other
  data are left as they are. When no row is stored under \<^verbatim>\<open>schema_version\<close> it returns the
  current version 0, the number of configured steps as target version and all the steps as
  pending; when the row holds a number \<open>n\<close> it returns \<open>n\<close>, the number of steps and
  \<^verbatim>\<open>migrations.slice(n)\<close>, which for \<open>n \<ge> 0\<close> is the list without its first \<open>n\<close> steps; when the
  row holds anything else it throws.
\<close>

theorem migration_status_read:
  "snd (getMigrationStatus s ms)
     = (case metadata s of None \<Rightarrow> s\<lparr>metadata := Some Map.empty\<rparr> | Some m \<Rightarrow> s) \<and>
   user (snd (getMigrationStatus s ms)) = user s \<and>
   schema_version_row (snd (getMigrationStatus s ms)) = schema_version_row s \<and>
   fst (getMigrationStatus s ms)
     = (case schema_version_row s of
          None \<Rightarrow>
            Inr \<lparr>currentVersion = 0, targetVersion = int (length ms), migrationsToApply = ms\<rparr>
        | Some (SNumber n) \<Rightarrow>
            Inr \<lparr>currentVersion = n, targetVersion = int (length ms),
                 migrationsToApply = js_slice n (int (length ms)) ms\<rparr>
        | Some v \<Rightarrow>
            Inl (Error (''Invalid schema_version: '' @ js_template_string v
                        @ '' ('' @ js_typeof v @ '')''))) \<and>
   js_slice (int i) (int (length ms)) ms = drop i ms"
proof -
  have st: "snd (getMigrationStatus s ms) = exec_create_metadata s"
    using getSchemaVersion_store[of s]
    by (cases "getSchemaVersion s") (auto simp: getMigrationStatus_def split: sum.splits)
  have res: "fst (getMigrationStatus s ms)
      = (case fst (getSchemaVersion s) of
           Inl e \<Rightarrow> Inl e
         | Inr v \<Rightarrow> Inr \<lparr>currentVersion = v, targetVersion = int (length ms),
                          migrationsToApply = js_slice v (int (length ms)) ms\<rparr>)"
    by (cases "getSchemaVersion s") (auto simp: getMigrationStatus_def split: sum.splits)
  have all: "js_slice 0 (int (length ms)) ms = ms"
    using js_slice_pending[of 0 ms] by simp
  have c1: "snd (getMigrationStatus s ms)
      = (case metadata s of None \<Rightarrow> s\<lparr>metadata := Some Map.empty\<rparr> | Some m \<Rightarrow> s)"
    by (simp add: st exec_create_metadata_def)
  have c2: "user (snd (getMigrationStatus s ms)) = user s"
    by (simp add: st exec_create_metadata_def split: option.splits)
  have c3: "schema_version_row (snd (getMigrationStatus s ms)) = schema_version_row s"
    by (simp add: st)
  have c4: "fst (getMigrationStatus s ms)
     = (case schema_version_row s of
          None \<Rightarrow>
            Inr \<lparr>currentVersion = 0, targetVersion = int (length ms), migrationsToApply = ms\<rparr>
        | Some (SNumber n) \<Rightarrow>
            Inr \<lparr>currentVersion = n, targetVersion = int (length ms),
                 migrationsToApply = js_slice n (int (length ms)) ms\<rparr>
        | Some v \<Rightarrow>
            Inl (Error (''Invalid schema_version: '' @ js_template_string v
                        @ '' ('' @ js_typeof v @ '')'')))"
    unfolding res getSchemaVersion_row
    by (simp add: all split: option.splits SqlStorageValue.splits)
  show ?thesis
    using c1 c2 c3 c4 js_slice_pending[of "int i" ms] by simp
qed

text \<open>
  C9 as stated fails on a storage that has no table \<^verbatim>\<open>metadata\<close> yet: the status read creates
  it.
\<close>

theorem migration_status_creates_table_counterexample:
  "fst (getMigrationStatus \<lparr>metadata = None, user = ()\<rparr> [])
     = Inr \<lparr>currentVersion = 0, targetVersion = 0, migrationsToApply = []\<rparr> \<and>
   snd (getMigrationStatus \<lparr>metadata = None, user = ()\<rparr> []) \<noteq> \<lparr>metadata = None, user = ()\<rparr> \<and>
   metadata (snd (getMigrationStatus \<lparr>metadata = None, user = ()\<rparr> [])) = Some Map.empty"
  by (simp add: getMigrationStatus_def getSchemaVersion_def exec_create_metadata_def
      exec_select_schema_version_def js_slice_def Let_def)

text \<open>
  C10. When the row stored under \<^verbatim>\<open>schema_version\<close> holds a value that is not a number, reading
  the schema version throws an error whose message gives the value and its type; so do
  \<^verbatim>\<open>getMigrationStatus\<close> and a migration run, which makes no call and changes nothing. The
  version 0 is read only when no row exists, or when the row holds the number 0.
\<close>

theorem invalid_schema_version_raises:
  fixes st :: "'u run_state" and s :: "'u storage"
  assumes "schema_version_row (store st) = Some v" and "js_typeof v \<noteq> ''number''"
  shows "fst (getSchemaVersion (store st))
           = Inl (Error (''Invalid schema_version: '' @ js_template_string v
                         @ '' ('' @ js_typeof v @ '')'')) \<and>
         fst (getMigrationStatus (store st) ms)
           = Inl (Error (''Invalid schema_version: '' @ js_template_string v
                         @ '' ('' @ js_typeof v @ '')'')) \<and>
         migrateDatabase versions options st
           = (Some (Error (''Invalid schema_version: '' @ js_template_string v
                           @ '' ('' @ js_typeof v @ '')'')), st) \<and>
         (fst (getSchemaVersion s) = Inr 0)
           = (schema_version_row s = None \<or> schema_version_row s = Some (SNumber 0))"
proof -
  let ?e = "Error (''Invalid schema_version: '' @ js_template_string v @ '' ('' @ js_typeof v @ '')'')"
  have r: "fst (getSchemaVersion (store st)) = Inl ?e"
    using assms by (cases v) (simp_all add: getSchemaVersion_row)
  have table: "exec_create_metadata (store st) = store st"
    using assms(1) by (simp add: exec_create_metadata_def schema_version_row_def split: option.splits)
  have gsv: "getSchemaVersion (store st) = (Inl ?e, store st)"
    using r getSchemaVersion_store[of "store st"] table
    by (cases "getSchemaVersion (store st)") simp
  have zero: "(fst (getSchemaVersion s) = Inr 0)
           = (schema_version_row s = None \<or> schema_version_row s = Some (SNumber 0))"
    by (simp add: getSchemaVersion_row split: option.splits SqlStorageValue.splits)
  show ?thesis
    using r gsv zero by (simp add: getMigrationStatus_def migrateDatabase_def)
qed

theorem invalid_schema_version_raises_witness:
  "schema_version_row \<lparr>metadata = Some [''schema_version'' \<mapsto> SString ''two''], user = ()\<rparr>
     = Some (SString ''two'') \<and>
   js_typeof (SString ''two'') \<noteq> ''number'' \<and>
   fst (getSchemaVersion \<lparr>metadata = Some [''schema_version'' \<mapsto> SString ''two''], user = ()\<rparr>)
     = Inl (Error ''Invalid schema_version: two (string)'') \<and>
   fst (migrateDatabase [] \<lparr>beforeQuery = None, afterQuery = None, beforeMigration = None\<rparr>
         \<lparr>store = \<lparr>metadata = Some [''schema_version'' \<mapsto> SString ''two''], user = ()\<rparr>,
          events = []\<rparr>)
     = Some (Error ''Invalid schema_version: two (string)'')"
proof -
  have row: "schema_version_row
      (store \<lparr>store = \<lparr>metadata = Some [''schema_version'' \<mapsto> SString ''two''], user = ()\<rparr>,
              events = []\<rparr>) = Some (SString ''two'')"
    by (simp add: schema_version_row_def)
  have ty: "js_typeof (SString ''two'') \<noteq> ''number''" by simp
  from invalid_schema_version_raises[OF row ty, of undefined "[]" "\<lparr>beforeQuery = None, afterQuery = None, beforeMigration = None\<rparr>" "\<lparr>metadata = None, user = ()\<rparr>"]
  show ?thesis using row by simp
qed

section \<open>Failing steps\<close>

text \<open>
  C3 (as amended). Take a run from a persisted integer version \<open>v \<ge> 0\<close> and a step \<open>k\<close> with
  \<open>v \<le> k < N\<close> such that the observer hook and the steps \<open>v, ..., k - 1\<close> complete, leaving the
  storage \<open>s\<close>, and such that the \<^verbatim>\<open>beforeMigrate\<close> or the \<^verbatim>\<open>migrate\<close> hook of step \<open>k\<close> throws \<open>e\<close>
  on it, leaving \<open>s'\<close>. Then the run throws exactly \<open>e\<close>: the error is passed on as thrown, nothing
  wraps or annotates it, and the step's name and target version appear only in the line logged
  before its hooks ran. The run ends there: its storage is \<open>s'\<close>, so that no later hook has run
  and no further version has been written, and its calls are those of the observer, of the
  completed steps \<open>v, ..., k - 1\<close>, and of step \<open>k\<close> up to the hook that threw. If the observer,
  the \<^verbatim>\<open>afterQuery\<close> callback and the hooks of step \<open>k\<close> leave the table \<^verbatim>\<open>metadata\<close> alone, the
  persisted version is \<open>k\<close>, the number of completed steps.
\<close>

theorem failing_step_aborts_run:
  fixes st :: "'u run_state"
  assumes "fst (getSchemaVersion (store st)) = Inr v" and "0 \<le> v"
    and "nat v \<le> k" and "k < length versions"
    and "then_call (observer_call options (drop (nat v) versions) (exec_create_metadata (store st)))
           (pending_steps options (take (k - nat v) (drop (nat v) versions)) v) = (None, s)"
    and "step_hooks (versions ! k) s = (Some e, s')"
  shows "migrateDatabase versions options st
           = (Some e,
              \<lparr>store = s',
               events = events st
                 @ observer_events options (drop (nat v) versions)
                 @ concat (map (step_events options versions) [nat v..<k])
                 @ failed_step_events versions k s\<rparr>) \<and>
         (observer_preserves_metadata options \<and> after_query_preserves_metadata options \<and>
          step_preserves_metadata (versions ! k)
            \<longrightarrow> fst (getSchemaVersion s') = Inr (int k))"
proof -
  let ?s1 = "exec_create_metadata (store st)"
  let ?pending = "drop (nat v) versions"
  let ?j = "k - nat v"
  have lt: "v < int (length versions)" using assms(3,4) by linarith
  obtain s2 where obs: "observer_call options ?pending ?s1 = (None, s2)"
    and steps: "pending_steps options (take ?j ?pending) v s2 = (None, s)"
    using assms(5) by (auto simp: then_call_returns)
  let ?st2 = "\<lparr>store = s2, events = events st @ observer_events options ?pending\<rparr>"
  let ?stk = "\<lparr>store = s,
              events = events ?st2 @ concat (map (step_events options versions) [nat v..<nat v + ?j])\<rparr>"
  have len: "nat v + ?j \<le> length versions" using assms(3,4) by simp
  have kk: "nat v + ?j = k" using assms(3) by simp
  have steps': "pending_steps options (take ?j ?pending) (int (nat v)) (store ?st2) = (None, s)"
    using steps assms(2) by simp
  have "migrateDatabase versions options st = migrateLoop options versions (int (nat v)) ?st2"
    using migrateDatabase_pending[OF assms(1,2) lt, of options] obs assms(2) by simp
  also have "\<dots> = migrateLoop options versions (int (nat v + ?j)) ?stk"
    by (rule migrateLoop_prefix[OF len steps'])
  also have "\<dots> = (Some e,
      \<lparr>store = s',
       events = events st @ observer_events options ?pending
         @ concat (map (step_events options versions) [nat v..<k])
         @ failed_step_events versions k s\<rparr>)"
    using migrateStep_hooks_raise[of "versions ! k" ?stk e s' options "int k"] assms(4,6)
    by (simp add: kk migrateLoop_step failed_step_events_def split: option.splits)
  finally have run: "migrateDatabase versions options st = (Some e,
      \<lparr>store = s',
       events = events st @ observer_events options ?pending
         @ concat (map (step_events options versions) [nat v..<k])
         @ failed_step_events versions k s\<rparr>)" .
  have persisted: "fst (getSchemaVersion s') = Inr (int k)"
    if fo: "observer_preserves_metadata options" and fa: "after_query_preserves_metadata options"
      and fk: "step_preserves_metadata (versions ! k)"
  proof -
    have "metadata s' = metadata s"
      using step_hooks_preserve[OF fk, of s] assms(6) by simp
    then have same: "schema_version_row s' = schema_version_row s"
      by (simp add: schema_version_row_def)
    show ?thesis
    proof (cases "k = nat v")
      case True
      then have "s = s2" using steps by simp
      moreover have "metadata s2 = metadata ?s1"
        using observer_call_preserve[OF fo, of ?pending ?s1] obs by simp
      ultimately have "schema_version_row s' = schema_version_row (store st)"
        using same by (simp add: schema_version_row_def del: schema_version_row_create)
          (simp add: schema_version_row_def[symmetric])
      then have "fst (getSchemaVersion s') = fst (getSchemaVersion (store st))"
        by (simp add: getSchemaVersion_row)
      then show ?thesis using assms(1,2) True by simp
    next
      case False
      then have pos: "take ?j ?pending \<noteq> []" using assms(3,4) by simp
      have "length (take ?j ?pending) = ?j" using assms(3,4) by simp
      then have "schema_version_row s = Some (SNumber (v + int ?j))"
        using pending_steps_row[OF fa steps pos] by simp
      moreover have "v + int ?j = int k" using assms(2,3) by simp
      ultimately show ?thesis using same by (simp add: getSchemaVersion_row)
    qed
  qed
  show ?thesis using run persisted by blast
qed

text \<open>
  The example whose second step throws in \<^verbatim>\<open>migrate\<close>, from a fresh storage: the first step is
  completed, the second step's hooks are the last calls, the storage is the one the throwing
  hook left, and the persisted version is 1.
\<close>

theorem failing_step_aborts_run_witness:
  "fst (getSchemaVersion (store fresh_state)) = Inr 0 \<and>
   then_call
       (observer_call example_options (drop (nat 0) failing_versions)
          (exec_create_metadata (store fresh_state)))
       (pending_steps example_options (take (1 - nat 0) (drop (nat 0) failing_versions)) 0)
     = (None,
        \<lparr>metadata = Some [''schema_version'' \<mapsto> SNumber 1],
         user = [''pending:'', ''Initial schema'', ''Add posts table'', ''users'', ''written'']\<rparr>) \<and>
   step_hooks (failing_versions ! 1)
       \<lparr>metadata = Some [''schema_version'' \<mapsto> SNumber 1],
        user = [''pending:'', ''Initial schema'', ''Add posts table'', ''users'', ''written'']\<rparr>
     = (Some (Error ''table posts already exists''),
        \<lparr>metadata = Some [''schema_version'' \<mapsto> SNumber 1],
         user = [''pending:'', ''Initial schema'', ''Add posts table'', ''users'', ''written'',
                 ''check'', ''partial'']\<rparr>) \<and>
   observer_preserves_metadata example_options \<and>
   after_query_preserves_metadata example_options \<and>
   step_preserves_metadata (failing_versions ! 1) \<and>
   migrateDatabase failing_versions example_options fresh_state
     = (Some (Error ''table posts already exists''),
        \<lparr>store =
           \<lparr>metadata = Some [''schema_version'' \<mapsto> SNumber 1],
            user = [''pending:'', ''Initial schema'', ''Add posts table'', ''users'', ''written'',
                    ''check'', ''partial'']\<rparr>,
         events =
           [BeforeMigrationCalled [''Initial schema'', ''Add posts table''],
            ConsoleLog ''Migrating database to version 1: Initial schema...'',
            MigrateCalled 0,
            SqlExecCalled upsert_sql [PNumber 1, PNumber 1],
            AfterQueryCalled upsert_sql,
            ConsoleLog ''Migrating database to version 2: Add posts table...'',
            BeforeMigrateCalled 1,
            MigrateCalled 1]\<rparr>) \<and>
   fst (getSchemaVersion
         \<lparr>metadata = Some [''schema_version'' \<mapsto> SNumber 1],
          user = [''pending:'', ''Initial schema'', ''Add posts table'', ''users'', ''written'',
                  ''check'', ''partial'']\<rparr>) = Inr 1"
proof -
  let ?s = "\<lparr>metadata = Some [''schema_version'' \<mapsto> SNumber 1],
         user = [''pending:'', ''Initial schema'', ''Add posts table'', ''users'', ''written'']\<rparr>"
  let ?s' = "\<lparr>metadata = Some [''schema_version'' \<mapsto> SNumber 1],
         user = [''pending:'', ''Initial schema'', ''Add posts table'', ''users'', ''written'',
                 ''check'', ''partial'']\<rparr>"
  let ?e = "Error ''table posts already exists''"
  have v: "fst (getSchemaVersion (store fresh_state)) = Inr 0"
    by (simp add: fresh_state_def spec_run_defs)
  have k1: "nat 0 \<le> (1::nat)" by simp
  have k2: "1 < length failing_versions" by (simp add: failing_versions_def)
  have before: "then_call
       (observer_call example_options (drop (nat 0) failing_versions)
          (exec_create_metadata (store fresh_state)))
       (pending_steps example_options (take (1 - nat 0) (drop (nat 0) failing_versions)) 0)
     = (None, ?s)"
    by (simp add: fresh_state_def failing_versions_def example_options_def spec_run_defs)
  have raises: "step_hooks (failing_versions ! 1) ?s = (Some ?e, ?s')"
    by (simp add: failing_versions_def step_hooks_def)
  have fo: "observer_preserves_metadata example_options"
    by (simp add: observer_preserves_metadata_def preserves_metadata_def example_options_def)
  have fa: "after_query_preserves_metadata example_options"
    by (simp add: after_query_preserves_metadata_def preserves_metadata_def example_options_def)
  have fk: "step_preserves_metadata (failing_versions ! 1)"
    by (simp add: step_preserves_metadata_def preserves_metadata_def failing_versions_def)
  have ev: "events fresh_state
      @ observer_events example_options (drop (nat 0) failing_versions)
      @ concat (map (step_events example_options failing_versions) [nat 0..<1])
      @ failed_step_events failing_versions 1 ?s
     = [BeforeMigrationCalled [''Initial schema'', ''Add posts table''],
        ConsoleLog ''Migrating database to version 1: Initial schema...'',
        MigrateCalled 0,
        SqlExecCalled upsert_sql [PNumber 1, PNumber 1],
        AfterQueryCalled upsert_sql,
        ConsoleLog ''Migrating database to version 2: Add posts table...'',
        BeforeMigrateCalled 1,
        MigrateCalled 1]"
    by (simp add: fresh_state_def failing_versions_def example_options_def spec_event_defs)
  from failing_step_aborts_run[OF v _ k1 k2 before raises] fo fa fk
  have "migrateDatabase failing_versions example_options fresh_state
      = (Some ?e,
         \<lparr>store = ?s',
          events = events fresh_state
            @ observer_events example_options (drop (nat 0) failing_versions)
            @ concat (map (step_events example_options failing_versions) [nat 0..<1])
            @ failed_step_events failing_versions 1 ?s\<rparr>)"
    and "fst (getSchemaVersion ?s') = Inr (int 1)"
    by simp_all
  then show ?thesis
    using ev v before raises fo fa fk by simp
qed

text \<open>
  C3 as stated fails in its last part: the error that surfaces is the hook's error as thrown. It
  says nothing of the step, and it is the same error when the throwing step has another name and
  another target version.
\<close>

theorem step_error_not_annotated_counterexample:
  "fst (migrateDatabase failing_versions example_options fresh_state)
     = Some (Error ''table posts already exists'') \<and>
   fst (migrateDatabase [(failing_versions ! 1)\<lparr>name := ''Another step''\<rparr>] example_options fresh_state)
     = Some (Error ''table posts already exists'')"
  by (simp add: fresh_state_def failing_versions_def example_options_def run_defs)

end
